theory Spec2Isabelle
  imports Main "HOL-Library.Sublist"
begin

section \<open>Record model\<close>

text \<open>
  The Go struct \<open>Identity\<close> of identity.go, field by field. A Go string is a sequence of
  bytes, here a \<open>string\<close>; a slice \<open>[]string\<close> is a list, so that a nil slice and an
  empty one are the same value (both have length 0 and the template ranges over both
  in the same way).
\<close>

record Identity =
  UUID :: string
  GivenName :: string
  FamilyName :: string
  Motto :: string
  Composer :: string
  Clade :: string
  Status :: string
  Born :: string
  Parents :: "string list"
  Reproduction :: string
  Aliases :: "string list"
  GeneratedBy :: string
  Lang :: string
  ProtoStatus :: string

text \<open>The Go zero value \<open>Identity{}\<close>.\<close>

definition Identity_zero :: Identity where
  "Identity_zero = \<lparr> UUID = [], GivenName = [], FamilyName = [], Motto = [], Composer = [],
     Clade = [], Status = [], Born = [], Parents = [], Reproduction = [], Aliases = [],
     GeneratedBy = [], Lang = [], ProtoStatus = [] \<rparr>"

text \<open>
  Go errors. \<open>SkipDir\<close> and \<open>SkipAll\<close> are the two sentinel values of path/filepath;
  \<open>Errorf\<close> is \<open>fmt.Errorf\<close> with its formatted message, \<open>ErrorfW\<close> the same with a
  wrapped cause (\<open>%w\<close>); \<open>OSError\<close> stands for an error reported by the operating system;
  \<open>StatusError\<close> is an error of the gRPC package \<open>status\<close>, with its code and message.
  \<open>Error_text\<close> is the method \<open>Error()\<close>, which \<open>%v\<close> prints.
\<close>

datatype code = InvalidArgument | Internal | NotFound

datatype error =
    SkipDir
  | SkipAll
  | Errorf string
  | ErrorfW string error
  | OSError string
  | StatusError code string

fun code_text :: "code \<Rightarrow> string" where
  "code_text InvalidArgument = ''InvalidArgument''"
| "code_text Internal = ''Internal''"
| "code_text NotFound = ''NotFound''"

fun Error_text :: "error \<Rightarrow> string" where
  "Error_text SkipDir = ''skip this directory''"
| "Error_text SkipAll = ''skip everything and stop the walk''"
| "Error_text (Errorf msg) = msg"
| "Error_text (ErrorfW msg err) = msg @ Error_text err"
| "Error_text (OSError msg) = msg"
| "Error_text (StatusError c msg) = ''rpc error: code = '' @ code_text c @ '' desc = '' @ msg"

section \<open>Frontmatter codec\<close>

abbreviation NL :: char where
  "NL \<equiv> CHR 0x0A"

text \<open>\<open>strings.HasPrefix\<close> is \<^const>\<open>prefix\<close>. \<open>strings.Index\<close>: the index of the first
  occurrence of \<open>sep\<close> in \<open>s\<close>, or \<open>-1\<close>.\<close>

fun Index :: "string \<Rightarrow> string \<Rightarrow> int" where
  "Index [] sep = (if sep = [] then 0 else - 1)"
| "Index (c # s) sep =
     (if prefix sep (c # s) then 0
      else (let r = Index s sep in if r < 0 then - 1 else r + 1))"

text \<open>The string \<open>"\n---"\<close> that closes the block.\<close>

definition closing :: string where
  "closing = NL # ''---''"

text \<open>The variable \<open>rest\<close> of \<open>ParseFrontmatter\<close>: the content after the opening
  \<open>---\<close> and after one newline, when there is one.\<close>

definition frontmatter_rest :: "string \<Rightarrow> string" where
  "frontmatter_rest content =
     (let rest = drop 3 content
      in if length rest > 0 \<and> rest ! 0 = NL then drop 1 rest else rest)"

text \<open>
  \<open>ParseFrontmatter\<close> returns the Go triple \<open>(Identity, string, error)\<close>. The YAML decoder
  \<open>yaml.Unmarshal\<close> (gopkg.in/yaml.v3) is a parameter: a function from the block to an
  error or to the decoded record.
\<close>

definition ParseFrontmatter ::
  "(string \<Rightarrow> error + Identity) \<Rightarrow> string \<Rightarrow> Identity \<times> string \<times> error option" where
  "ParseFrontmatter unmarshal content =
     (if \<not> prefix ''---'' content
      then (Identity_zero, [], Some (Errorf ''no YAML frontmatter found''))
      else
        let rest = frontmatter_rest content;
            e = Index rest closing
        in if e < 0
           then (Identity_zero, [], Some (Errorf ''unclosed YAML frontmatter''))
           else
             let yamlBlock = take (nat e) rest;
                 body = drop (nat e + 4) rest
             in (case unmarshal yamlBlock of
                   Inl err \<Rightarrow> (Identity_zero, [], Some (ErrorfW ''YAML parse error: '' err))
                 | Inr ident \<Rightarrow> (ident, body, None)))"

section \<open>File system and \<open>filepath.WalkDir\<close>\<close>

text \<open>
  What the walk sees of the file system: a tree. A \<open>File\<close> is any entry that is not a
  directory, with its name and with the result of \<open>os.ReadFile\<close> on it (\<open>None\<close> when the
  read fails). A \<open>Dir\<close> has its name, the entries that \<open>os.ReadDir\<close> returns for it, in
  the order in which it returns them, and the error of \<open>os.ReadDir\<close> when there is one.
  \<open>IsDir\<close> and \<open>Name\<close> are the two methods of \<open>os.DirEntry\<close> that the callbacks use.
\<close>

datatype node = File string "string option" | Dir string "node list" "error option"

fun IsDir :: "node \<Rightarrow> bool" where
  "IsDir (File name data) = False"
| "IsDir (Dir name entries rerr) = True"

fun Name :: "node \<Rightarrow> string" where
  "Name (File name data) = name"
| "Name (Dir name entries rerr) = name"

fun ReadFile :: "node \<Rightarrow> string option" where
  "ReadFile (File name data) = data"
| "ReadFile (Dir name entries rerr) = None"

text \<open>
  A file system maps a root path to the result of \<open>os.Lstat\<close> on it: an error, or the tree
  found there. \<open>os.Lstat\<close> fails on the empty path.
\<close>

type_synonym filesystem = "string \<Rightarrow> error + node"

definition Lstat :: "filesystem \<Rightarrow> string \<Rightarrow> error + node" where
  "Lstat fs name =
     (if name = [] then Inl (OSError ''lstat : no such file or directory'') else fs name)"

text \<open>
  \<open>filepath.Clean\<close> and \<open>filepath.Join\<close> of the Go standard library, for the separator
  \<open>/\<close>. \<open>Clean\<close> drops empty elements and \<open>.\<close> elements, lets \<open>..\<close> remove the element
  before it (at the root it is dropped, at the start of a relative path it is kept), and
  returns \<open>.\<close> for a path with nothing left. \<open>JoinN\<close> is \<open>filepath.Join\<close> on any number of
  elements: it cleans the elements joined by separators, from the first element that is
  not empty; \<open>Join\<close> is its use with two elements.
\<close>

fun split_slash :: "string \<Rightarrow> string list" where
  "split_slash [] = [[]]"
| "split_slash (c # s) =
     (if c = CHR ''/'' then [] # split_slash s
      else (case split_slash s of [] \<Rightarrow> [[c]] | e # es \<Rightarrow> (c # e) # es))"

fun clean_elems :: "bool \<Rightarrow> string list \<Rightarrow> string list \<Rightarrow> string list" where
  "clean_elems rooted out [] = rev out"
| "clean_elems rooted out (e # es) =
     (if e = [] \<or> e = ''.'' then clean_elems rooted out es
      else if e = ''..'' then
        (case out of
           [] \<Rightarrow> if rooted then clean_elems rooted [] es else clean_elems rooted [''..''] es
         | e1 # out1 \<Rightarrow>
             if e1 = ''..'' then clean_elems rooted (''..'' # out) es
             else clean_elems rooted out1 es)
      else clean_elems rooted (e # out) es)"

fun join_slash :: "string list \<Rightarrow> string" where
  "join_slash [] = []"
| "join_slash [e] = e"
| "join_slash (e # es) = e @ ''/'' @ join_slash es"

definition Clean :: "string \<Rightarrow> string" where
  "Clean path =
     (if path = [] then ''.''
      else
        let rooted = (hd path = CHR ''/'');
            out = join_slash (clean_elems rooted [] (split_slash path))
        in if rooted then ''/'' @ out
           else if out = [] then ''.'' else out)"

definition JoinN :: "string list \<Rightarrow> string" where
  "JoinN elem =
     (case dropWhile (\<lambda>e. e = []) elem of
        [] \<Rightarrow> []
      | e # es \<Rightarrow> Clean (join_slash (e # es)))"

definition Join :: "string \<Rightarrow> string \<Rightarrow> string" where
  "Join dir name = JoinN [dir, name]"

text \<open>
  \<open>filepath.WalkDir\<close> calls its callback in three ways: with the error of \<open>os.Lstat\<close> on
  the root (and no entry), with an entry (and no error), and with a directory and the
  error of \<open>os.ReadDir\<close> on it. The callback threads the state of the variables it
  captures, and returns an error or nil.
\<close>

datatype walk_arg = LstatFailed error | Entry node | ReadDirFailed node error

type_synonym 's WalkDirFunc = "string \<Rightarrow> walk_arg \<Rightarrow> 's \<Rightarrow> error option \<times> 's"

text \<open>
  \<open>walkDir\<close> is the recursive function of that name in path/filepath; \<open>walkDirs\<close> is its
  loop over the entries of a directory. \<open>SkipDir\<close> returned for a directory skips it;
  returned from inside a directory it ends the loop over that directory; any other error
  ends the walk. \<open>WalkDir\<close> turns the two sentinel errors into nil.
\<close>

fun walkDir :: "'s WalkDirFunc \<Rightarrow> string \<Rightarrow> node \<Rightarrow> 's \<Rightarrow> error option \<times> 's"
  and walkDirs :: "'s WalkDirFunc \<Rightarrow> string \<Rightarrow> node list \<Rightarrow> 's \<Rightarrow> error option \<times> 's" where
  "walkDir fn path (File name data) st = fn path (Entry (File name data)) st"
| "walkDir fn path (Dir name dirs rerr) st =
     (case fn path (Entry (Dir name dirs rerr)) st of
        (Some err, st1) \<Rightarrow> (if err = SkipDir then (None, st1) else (Some err, st1))
      | (None, st1) \<Rightarrow>
          (case rerr of
             None \<Rightarrow> walkDirs fn path dirs st1
           | Some re \<Rightarrow>
               (case fn path (ReadDirFailed (Dir name dirs rerr) re) st1 of
                  (Some err, st2) \<Rightarrow> (if err = SkipDir then (None, st2) else (Some err, st2))
                | (None, st2) \<Rightarrow> walkDirs fn path dirs st2)))"
| "walkDirs fn path [] st = (None, st)"
| "walkDirs fn path (d1 # ds) st =
     (case walkDir fn (Join path (Name d1)) d1 st of
        (Some err, st1) \<Rightarrow> (if err = SkipDir then (None, st1) else (Some err, st1))
      | (None, st1) \<Rightarrow> walkDirs fn path ds st1)"

definition WalkDir :: "filesystem \<Rightarrow> string \<Rightarrow> 's WalkDirFunc \<Rightarrow> 's \<Rightarrow> error option \<times> 's" where
  "WalkDir fs root fn st =
     (case (case Lstat fs root of
              Inl err \<Rightarrow> fn root (LstatFailed err) st
            | Inr info \<Rightarrow> walkDir fn root info st) of
        (Some err, st1) \<Rightarrow>
          (if err = SkipDir \<or> err = SkipAll then (None, st1) else (Some err, st1))
      | (None, st1) \<Rightarrow> (None, st1))"

section \<open>Tree scanner\<close>

record LocatedIdentity =
  Ident :: Identity
  Path :: string

record ScanProgress =
  ScannedFiles :: int
  HolonsFound :: int

text \<open>
  The state of a scan: the counters \<open>scanned\<close> and \<open>found\<close>, and the state \<open>u\<close> of the
  caller, which the callbacks \<open>onFound\<close> and \<open>onProgress\<close> update. A callback that is nil
  in Go is \<open>None\<close>. In \<open>reportProgress\<close> both operands of \<open>%\<close> are positive, where Go's
  remainder is \<open>mod\<close>.
\<close>

type_synonym 's scan_state = "int \<times> int \<times> 's"

definition reportProgress ::
  "int \<Rightarrow> (ScanProgress \<Rightarrow> 's \<Rightarrow> 's) option \<Rightarrow> bool \<Rightarrow> 's scan_state \<Rightarrow> 's scan_state" where
  "reportProgress progressEvery onProgress force st =
     (case st of (scanned, found, u) \<Rightarrow>
        (case onProgress of
           None \<Rightarrow> st
         | Some cb \<Rightarrow>
             if force \<or> (progressEvery > 0 \<and> scanned > 0 \<and> scanned mod progressEvery = 0)
             then (scanned, found, cb \<lparr> ScannedFiles = scanned, HolonsFound = found \<rparr> u)
             else st))"

text \<open>The test on a directory's name in the scan callback.\<close>

definition hidden :: "string \<Rightarrow> bool" where
  "hidden name \<longleftrightarrow> name \<noteq> ''.'' \<and> name \<noteq> ''.holon'' \<and> prefix ''.'' name"

text \<open>The callback that \<open>ScanAllWithPaths\<close> gives to \<open>filepath.WalkDir\<close>.\<close>

definition scanFn ::
  "(string \<Rightarrow> error + Identity) \<Rightarrow> int \<Rightarrow> (LocatedIdentity \<Rightarrow> 's \<Rightarrow> 's) option \<Rightarrow>
   (ScanProgress \<Rightarrow> 's \<Rightarrow> 's) option \<Rightarrow> ('s scan_state) WalkDirFunc" where
  "scanFn unmarshal progressEvery onFound onProgress path arg st =
     (case arg of
        LstatFailed err \<Rightarrow> (None, st)
      | ReadDirFailed d err \<Rightarrow> (None, st)
      | Entry d \<Rightarrow>
          if IsDir d then
            (if hidden (Name d) then (Some SkipDir, st) else (None, st))
          else
            (let st1 = reportProgress progressEvery onProgress False
                         (case st of (scanned, found, u) \<Rightarrow> (scanned + 1, found, u))
             in if Name d \<noteq> ''HOLON.md'' then (None, st1)
                else
                  (case ReadFile d of
                     None \<Rightarrow> (None, st1)
                   | Some data \<Rightarrow>
                       (case ParseFrontmatter unmarshal data of
                          (ident, body, Some err) \<Rightarrow> (None, st1)
                        | (ident, body, None) \<Rightarrow>
                            (case st1 of (scanned, found, u) \<Rightarrow>
                               (None, (scanned, found + 1,
                                  (case onFound of
                                     None \<Rightarrow> u
                                   | Some cb \<Rightarrow> cb \<lparr> Ident = ident, Path = path \<rparr> u))))))))"

definition ScanAllWithPaths ::
  "(string \<Rightarrow> error + Identity) \<Rightarrow> filesystem \<Rightarrow> string \<Rightarrow> int \<Rightarrow>
   (LocatedIdentity \<Rightarrow> 's \<Rightarrow> 's) option \<Rightarrow> (ScanProgress \<Rightarrow> 's \<Rightarrow> 's) option \<Rightarrow>
   's \<Rightarrow> error option \<times> 's" where
  "ScanAllWithPaths unmarshal fs root progressEvery0 onFound onProgress u =
     (let progressEvery = (if progressEvery0 < 0 then 0 else progressEvery0)
      in case WalkDir fs root (scanFn unmarshal progressEvery onFound onProgress) (0, 0, u) of
           (Some err, (scanned, found, u1)) \<Rightarrow> (Some err, u1)
         | (None, st) \<Rightarrow>
             (case reportProgress progressEvery onProgress True st of
                (scanned, found, u1) \<Rightarrow> (None, u1)))"

definition FindAllWithPaths ::
  "(string \<Rightarrow> error + Identity) \<Rightarrow> filesystem \<Rightarrow> string \<Rightarrow> LocatedIdentity list \<times> error option" where
  "FindAllWithPaths unmarshal fs root =
     (case ScanAllWithPaths unmarshal fs root 0 (Some (\<lambda>h holons. holons @ [h])) None [] of
        (err, holons) \<Rightarrow> (holons, err))"

definition FindAll ::
  "(string \<Rightarrow> error + Identity) \<Rightarrow> filesystem \<Rightarrow> string \<Rightarrow> Identity list \<times> error option" where
  "FindAll unmarshal fs root =
     (case FindAllWithPaths unmarshal fs root of
        (located, Some err) \<Rightarrow> ([], Some err)
      | (located, None) \<Rightarrow> (map Ident located, None))"

section \<open>Resolver\<close>

text \<open>The callback of \<open>FindByUUID\<close>; its state is the variable \<open>found\<close>.\<close>

definition findFn :: "(string \<Rightarrow> error + Identity) \<Rightarrow> string \<Rightarrow> string WalkDirFunc" where
  "findFn unmarshal target path arg found =
     (case arg of
        LstatFailed err \<Rightarrow> (None, found)
      | ReadDirFailed d err \<Rightarrow> (None, found)
      | Entry d \<Rightarrow>
          if IsDir d \<or> Name d \<noteq> ''HOLON.md'' then (None, found)
          else
            (case ReadFile d of
               None \<Rightarrow> (None, found)
             | Some data \<Rightarrow>
                 (case ParseFrontmatter unmarshal data of
                    (ident, body, Some err) \<Rightarrow> (None, found)
                  | (ident, body, None) \<Rightarrow>
                      if UUID ident = target \<or> prefix target (UUID ident)
                      then (Some SkipAll, path)
                      else (None, found))))"

definition FindByUUID ::
  "(string \<Rightarrow> error + Identity) \<Rightarrow> filesystem \<Rightarrow> string \<Rightarrow> string \<Rightarrow> string \<times> error option" where
  "FindByUUID unmarshal fs root target =
     (case WalkDir fs root (findFn unmarshal target) [] of
        (Some err, found) \<Rightarrow> ([], Some err)
      | (None, found) \<Rightarrow>
          if found = [] then ([], Some (Errorf (''holon not found: '' @ target)))
          else (found, None))"

text \<open>
  Instrumentation of a callback, for statements about the order of the walk: the state
  carries, next to the callback's own state, the paths on which the callback was called.
\<close>

definition traced :: "'s WalkDirFunc \<Rightarrow> ('s \<times> string list) WalkDirFunc" where
  "traced fn path arg st =
     (case st of (s, tr) \<Rightarrow> (case fn path arg s of (r, s') \<Rightarrow> (r, (s', tr @ [path]))))"

section \<open>Traversal order, as a specification\<close>

text \<open>
  The definitions of this section are not translated from the code: they say, as plain
  list functions, what the walks are proved to compute. \<open>all_files\<close> lists the
  non-directory entries under a tree in depth-first order with their paths;
  \<open>visible_files\<close> does the same without entering hidden directories; \<open>decode\<close> is the
  record of a file when it is a readable HOLON.md that \<open>ParseFrontmatter\<close> accepts.
\<close>

fun all_files :: "string \<Rightarrow> node \<Rightarrow> (string \<times> node) list"
  and all_files_in :: "string \<Rightarrow> node list \<Rightarrow> (string \<times> node) list" where
  "all_files path (File name data) = [(path, File name data)]"
| "all_files path (Dir name dirs rerr) = all_files_in path dirs"
| "all_files_in path [] = []"
| "all_files_in path (d1 # ds) = all_files (Join path (Name d1)) d1 @ all_files_in path ds"

fun visible_files :: "string \<Rightarrow> node \<Rightarrow> (string \<times> node) list"
  and visible_files_in :: "string \<Rightarrow> node list \<Rightarrow> (string \<times> node) list" where
  "visible_files path (File name data) = [(path, File name data)]"
| "visible_files path (Dir name dirs rerr) =
     (if hidden name then [] else visible_files_in path dirs)"
| "visible_files_in path [] = []"
| "visible_files_in path (d1 # ds) =
     visible_files (Join path (Name d1)) d1 @ visible_files_in path ds"

definition scan_files :: "filesystem \<Rightarrow> string \<Rightarrow> (string \<times> node) list" where
  "scan_files fs root = (case Lstat fs root of Inl err \<Rightarrow> [] | Inr d \<Rightarrow> visible_files root d)"

definition walk_files :: "filesystem \<Rightarrow> string \<Rightarrow> (string \<times> node) list" where
  "walk_files fs root = (case Lstat fs root of Inl err \<Rightarrow> [] | Inr d \<Rightarrow> all_files root d)"

definition decode :: "(string \<Rightarrow> error + Identity) \<Rightarrow> string \<times> node \<Rightarrow> LocatedIdentity option" where
  "decode unmarshal pd =
     (case pd of (path, d) \<Rightarrow>
        if Name d \<noteq> ''HOLON.md'' then None
        else
          (case ReadFile d of
             None \<Rightarrow> None
           | Some data \<Rightarrow>
               (case ParseFrontmatter unmarshal data of
                  (ident, body, Some err) \<Rightarrow> None
                | (ident, body, None) \<Rightarrow> Some \<lparr> Ident = ident, Path = path \<rparr>)))"

text \<open>
  The calls of the two callbacks of a scan, as events. \<open>apply_event\<close> replays an event on
  the caller's state; \<open>file_events\<close> gives the events of a list of files from given
  counters, and the counters after them; \<open>scan_trace\<close> adds the final progress report.
  \<open>scan_events\<close> is translated from the code: the events that \<open>ScanAllWithPaths\<close> emits
  when both callbacks log their argument.
\<close>

datatype event = Found LocatedIdentity | Progress ScanProgress

fun apply_event ::
  "(LocatedIdentity \<Rightarrow> 's \<Rightarrow> 's) option \<Rightarrow> (ScanProgress \<Rightarrow> 's \<Rightarrow> 's) option \<Rightarrow> event \<Rightarrow> 's \<Rightarrow> 's" where
  "apply_event onFound onProgress (Found h) u = (case onFound of None \<Rightarrow> u | Some cb \<Rightarrow> cb h u)"
| "apply_event onFound onProgress (Progress p) u = (case onProgress of None \<Rightarrow> u | Some cb \<Rightarrow> cb p u)"

definition periodic :: "int \<Rightarrow> int \<Rightarrow> bool" where
  "periodic progressEvery scanned \<longleftrightarrow>
     progressEvery > 0 \<and> scanned > 0 \<and> scanned mod progressEvery = 0"

fun file_events ::
  "(string \<Rightarrow> error + Identity) \<Rightarrow> int \<Rightarrow> (string \<times> node) list \<Rightarrow> int \<times> int \<Rightarrow> event list \<times> int \<times> int" where
  "file_events unmarshal n [] (s, f) = ([], s, f)"
| "file_events unmarshal n (pd # fl) (s, f) =
     (let pev = (if periodic n (s + 1) then [Progress \<lparr> ScannedFiles = s + 1, HolonsFound = f \<rparr>] else [])
      in case decode unmarshal pd of
           None \<Rightarrow> (case file_events unmarshal n fl (s + 1, f) of (evs, sf) \<Rightarrow> (pev @ evs, sf))
         | Some h \<Rightarrow> (case file_events unmarshal n fl (s + 1, f + 1) of (evs, sf) \<Rightarrow> (pev @ Found h # evs, sf)))"

definition scan_trace :: "(string \<Rightarrow> error + Identity) \<Rightarrow> int \<Rightarrow> (string \<times> node) list \<Rightarrow> event list" where
  "scan_trace unmarshal n fl =
     (case file_events unmarshal n fl (0, 0) of
        (evs, s, f) \<Rightarrow> evs @ [Progress \<lparr> ScannedFiles = s, HolonsFound = f \<rparr>])"

definition scan_events :: "(string \<Rightarrow> error + Identity) \<Rightarrow> filesystem \<Rightarrow> string \<Rightarrow> int \<Rightarrow> event list" where
  "scan_events unmarshal fs root progressEvery =
     snd (ScanAllWithPaths unmarshal fs root progressEvery
            (Some (\<lambda>h evs. evs @ [Found h])) (Some (\<lambda>p evs. evs @ [Progress p])) [])"

text \<open>The records, and the progress snapshots, of a sequence of events.\<close>

fun founds :: "event list \<Rightarrow> LocatedIdentity list" where
  "founds [] = []"
| "founds (Found h # es) = h # founds es"
| "founds (Progress p # es) = founds es"

fun snapshots :: "event list \<Rightarrow> ScanProgress list" where
  "snapshots [] = []"
| "snapshots (Found h # es) = snapshots es"
| "snapshots (Progress p # es) = p # snapshots es"

definition matches :: "string \<Rightarrow> LocatedIdentity \<Rightarrow> bool" where
  "matches target h \<longleftrightarrow> UUID (Ident h) = target \<or> prefix target (UUID (Ident h))"

definition first_match ::
  "(string \<Rightarrow> error + Identity) \<Rightarrow> string \<Rightarrow> (string \<times> node) list \<Rightarrow> LocatedIdentity option" where
  "first_match unmarshal target fl = find (matches target) (List.map_filter (decode unmarshal) fl)"

section \<open>Example tree\<close>

text \<open>
  The tree of \<open>setupTestDir\<close> in the repository's tests: two holons and one under a
  hidden directory, each file reduced to its \<open>uuid\<close> line. The theorems hold for every
  decoder; the examples use \<open>unmarshal_uuid\<close>, which decodes a block that consists of
  one line \<open>uuid: "..."\<close> and rejects every other block.
\<close>

abbreviation DQ :: char where
  "DQ \<equiv> CHR 0x22"

definition unmarshal_uuid :: "string \<Rightarrow> error + Identity" where
  "unmarshal_uuid block =
     (if prefix (''uuid: '' @ [DQ]) block \<and> 8 \<le> length block \<and> last block = DQ
      then Inr (Identity_zero \<lparr> UUID := butlast (drop 7 block) \<rparr>)
      else Inl (Errorf ''yaml: unmarshal errors''))"

definition example_content :: "string \<Rightarrow> string" where
  "example_content uuid = ''---'' @ [NL] @ ''uuid: '' @ [DQ] @ uuid @ [DQ] @ [NL] @ ''---'' @ [NL]"

definition example_tree :: node where
  "example_tree =
     Dir ''root''
       [Dir ''.secret'' [File ''HOLON.md'' (Some (example_content ''hidden-uuid''))] None,
        Dir ''holon-a'' [File ''HOLON.md'' (Some (example_content ''aaaa-1111''))] None,
        Dir ''holon-b'' [File ''HOLON.md'' (Some (example_content ''bbbb-2222''))] None]
       None"

definition example_fs :: filesystem where
  "example_fs path =
     (if path = ''/tmp/root'' then Inr example_tree
      else Inl (OSError ''no such file or directory''))"

section \<open>\<open>strings.TrimSpace\<close>\<close>

text \<open>
  \<open>strings.TrimSpace\<close> removes the leading and the trailing code points that
  \<open>unicode.IsSpace\<close> accepts. These are the code points with the Unicode property
  White_Space; \<open>space_runes\<close> lists their UTF-8 encodings: U+0009 to U+000D, U+0020,
  U+0085, U+00A0, U+1680, U+2000 to U+200A, U+2028, U+2029, U+202F, U+205F and U+3000.
  A byte sequence that is not valid UTF-8 decodes to U+FFFD, which is not a space.
\<close>

definition space_runes :: "string list" where
  "space_runes =
     [[CHR 0x09], [CHR 0x0A], [CHR 0x0B], [CHR 0x0C], [CHR 0x0D], [CHR 0x20],
      [CHR 0xC2, CHR 0x85], [CHR 0xC2, CHR 0xA0], [CHR 0xE1, CHR 0x9A, CHR 0x80],
      [CHR 0xE2, CHR 0x80, CHR 0x80], [CHR 0xE2, CHR 0x80, CHR 0x81],
      [CHR 0xE2, CHR 0x80, CHR 0x82], [CHR 0xE2, CHR 0x80, CHR 0x83],
      [CHR 0xE2, CHR 0x80, CHR 0x84], [CHR 0xE2, CHR 0x80, CHR 0x85],
      [CHR 0xE2, CHR 0x80, CHR 0x86], [CHR 0xE2, CHR 0x80, CHR 0x87],
      [CHR 0xE2, CHR 0x80, CHR 0x88], [CHR 0xE2, CHR 0x80, CHR 0x89],
      [CHR 0xE2, CHR 0x80, CHR 0x8A], [CHR 0xE2, CHR 0x80, CHR 0xA8],
      [CHR 0xE2, CHR 0x80, CHR 0xA9], [CHR 0xE2, CHR 0x80, CHR 0xAF],
      [CHR 0xE2, CHR 0x81, CHR 0x9F], [CHR 0xE3, CHR 0x80, CHR 0x80]]"

definition leading_space :: "string \<Rightarrow> string option" where
  "leading_space s = find (\<lambda>w. prefix w s) space_runes"

definition trailing_space :: "string \<Rightarrow> string option" where
  "trailing_space s = find (\<lambda>w. suffix w s) space_runes"

function TrimLeft :: "string \<Rightarrow> string" where
  "TrimLeft s =
     (case leading_space s of None \<Rightarrow> s | Some w \<Rightarrow> TrimLeft (drop (length w) s))"
  by pat_completeness auto
termination
proof (relation "measure length")
  show "wf (measure length)" by simp
next
  fix s w assume "leading_space s = Some w"
  then have "w \<in> set space_runes" and "prefix w s"
    by (auto simp: leading_space_def find_Some_iff)
  then have "w \<noteq> []" and "length w \<le> length s"
    by (auto simp: space_runes_def prefix_length_le)
  then show "(drop (length w) s, s) \<in> measure length" by (cases w) auto
qed

function TrimRight :: "string \<Rightarrow> string" where
  "TrimRight s =
     (case trailing_space s of None \<Rightarrow> s | Some w \<Rightarrow> TrimRight (take (length s - length w) s))"
  by pat_completeness auto
termination
proof (relation "measure length")
  show "wf (measure length)" by simp
next
  fix s w assume "trailing_space s = Some w"
  then have "w \<in> set space_runes" and "suffix w s"
    by (auto simp: trailing_space_def find_Some_iff)
  then have "w \<noteq> []" and "length w \<le> length s"
    by (auto simp: space_runes_def suffix_length_le)
  then show "(take (length s - length w) s, s) \<in> measure length" by (cases w) auto
qed

definition TrimSpace :: "string \<Rightarrow> string" where
  "TrimSpace s = TrimRight (TrimLeft s)"

declare TrimLeft.simps [simp del] TrimRight.simps [simp del]

section \<open>Aggregated listing\<close>

text \<open>
  \<open>filepath.Dir\<close>: the path up to its last separator, cleaned. \<open>filepath.Rel\<close> is a
  parameter of \<open>relHolonDir\<close>.
\<close>

definition filepath_Dir :: "string \<Rightarrow> string" where
  "filepath_Dir path = Clean (rev (dropWhile (\<lambda>c. c \<noteq> CHR ''/'') (rev path)))"

definition relHolonDir :: "(string \<Rightarrow> string \<Rightarrow> error + string) \<Rightarrow> string \<Rightarrow> string \<Rightarrow> string" where
  "relHolonDir Rel root holonPath =
     (let dir = filepath_Dir holonPath
      in case Rel root dir of
           Inl err \<Rightarrow> Clean dir
         | Inr rel \<Rightarrow> Clean rel)"

text \<open>
  What \<open>RunList\<close> writes. On standard output: the header line, the rule under it, one
  row for each entry with the six values that \<open>Printf\<close> formats, and the line
  "No holons found."; on standard error: the progress lines and the sequence that clears
  one. The padding of the columns is not modelled.
\<close>

datatype out_line =
    HeaderLine
  | RuleLine
  | Row string string string string string string
  | NoHolonsLine

datatype err_line = ClearLine | ProgressLine string int | ProgressInline string int

text \<open>The variables that the closures of \<open>RunList\<close> share, and the two streams.\<close>

record cli_state =
  printedHeader :: bool
  printedEntries :: int
  progressVisible :: bool
  stdout :: "out_line list"
  stderr :: "err_line list"

definition clearProgressLine :: "bool \<Rightarrow> cli_state \<Rightarrow> cli_state" where
  "clearProgressLine inlineProgress st =
     (if \<not> inlineProgress \<or> \<not> progressVisible st then st
      else st \<lparr> stderr := stderr st @ [ClearLine], progressVisible := False \<rparr>)"

definition printProgress :: "bool \<Rightarrow> string \<Rightarrow> int \<Rightarrow> cli_state \<Rightarrow> cli_state" where
  "printProgress inlineProgress scanLabel scannedFiles st =
     (if \<not> inlineProgress then st \<lparr> stderr := stderr st @ [ProgressLine scanLabel scannedFiles] \<rparr>
      else st \<lparr> stderr := stderr st @ [ProgressInline scanLabel scannedFiles],
                progressVisible := True \<rparr>)"

definition printEntry :: "bool \<Rightarrow> Identity \<Rightarrow> string \<Rightarrow> string \<Rightarrow> cli_state \<Rightarrow> cli_state" where
  "printEntry inlineProgress ident origin path st =
     (let st1 = clearProgressLine inlineProgress st;
          st2 = (if \<not> printedHeader st1
                 then st1 \<lparr> stdout := stdout st1 @ [HeaderLine, RuleLine], printedHeader := True \<rparr>
                 else st1);
          name = TrimSpace (GivenName ident @ '' '' @ FamilyName ident)
      in st2 \<lparr> stdout := stdout st2 @ [Row (UUID ident) name origin (Clade ident) (Status ident) path],
               printedEntries := printedEntries st2 + 1 \<rparr>)"

text \<open>
  The two callbacks of \<open>scanAndPrint\<close>. Their state is the map \<open>dedupe\<close> (\<open>None\<close> for a
  nil map; the set of its keys otherwise), the variable \<open>lastReported\<close>, and the shared
  variables. A Go map is a reference: the map that \<open>scanAndPrint\<close> updates is the
  caller's \<open>localSeen\<close>, so \<open>scanAndPrint\<close> returns it updated.
\<close>

type_synonym scan_print_state = "string set option \<times> int \<times> cli_state"

definition scanAndPrint_onFound ::
  "(string \<Rightarrow> string \<Rightarrow> error + string) \<Rightarrow> bool \<Rightarrow> string \<Rightarrow> string \<Rightarrow>
   LocatedIdentity \<Rightarrow> scan_print_state \<Rightarrow> scan_print_state" where
  "scanAndPrint_onFound Rel inlineProgress root origin h s =
     (case s of (dedupe, lastReported, st) \<Rightarrow>
        let key0 = UUID (Ident h);
            key = (if key0 = [] then Path h else key0)
        in case dedupe of
             Some seen \<Rightarrow>
               if key \<in> seen then (dedupe, lastReported, st)
               else (Some (insert key seen), lastReported,
                     printEntry inlineProgress (Ident h) origin (relHolonDir Rel root (Path h)) st)
           | None \<Rightarrow>
               (None, lastReported,
                printEntry inlineProgress (Ident h) origin (relHolonDir Rel root (Path h)) st))"

definition scanAndPrint_onProgress ::
  "bool \<Rightarrow> string \<Rightarrow> ScanProgress \<Rightarrow> scan_print_state \<Rightarrow> scan_print_state" where
  "scanAndPrint_onProgress inlineProgress scanLabel progress s =
     (case s of (dedupe, lastReported, st) \<Rightarrow>
        if ScannedFiles progress = 0 \<or> ScannedFiles progress = lastReported then s
        else (dedupe, ScannedFiles progress,
              printProgress inlineProgress scanLabel (ScannedFiles progress) st))"

definition scanAndPrint ::
  "(string \<Rightarrow> error + Identity) \<Rightarrow> filesystem \<Rightarrow> (string \<Rightarrow> string \<Rightarrow> error + string) \<Rightarrow> bool \<Rightarrow>
   string \<Rightarrow> string \<Rightarrow> string \<Rightarrow> string \<Rightarrow> string set option \<Rightarrow> cli_state \<Rightarrow>
   string set option \<times> cli_state" where
  "scanAndPrint unmarshal fs Rel inlineProgress root scanRoot scanLabel origin dedupe st =
     (case ScanAllWithPaths unmarshal fs scanRoot 500
             (Some (scanAndPrint_onFound Rel inlineProgress root origin))
             (Some (scanAndPrint_onProgress inlineProgress scanLabel))
             (dedupe, 0, st) of
        (err, (dedupe1, lastReported, st1)) \<Rightarrow> (dedupe1, st1))"

text \<open>\<open>holonCacheDir\<close>, given the result of \<open>os.UserHomeDir\<close>.\<close>

definition holonCacheDir :: "error + string \<Rightarrow> string" where
  "holonCacheDir home =
     (case home of Inl err \<Rightarrow> [] | Inr h \<Rightarrow> JoinN [h, ''.holon'', ''cache''])"

text \<open>
  \<open>RunList\<close>. Its parameters beside the root: the decoder, the file system,
  \<open>filepath.Rel\<close>, the result of \<open>os.UserHomeDir\<close>, and whether standard error is a
  terminal. It returns its error, which is always nil, and the final state.
\<close>

definition RunList ::
  "(string \<Rightarrow> error + Identity) \<Rightarrow> filesystem \<Rightarrow> (string \<Rightarrow> string \<Rightarrow> error + string) \<Rightarrow>
   error + string \<Rightarrow> bool \<Rightarrow> string \<Rightarrow> error option \<times> cli_state" where
  "RunList unmarshal fs Rel home inlineProgress root0 =
     (let root = Clean (if root0 = [] then ''.'' else root0);
          st0 = \<lparr> printedHeader = False, printedEntries = 0, progressVisible = False,
                  stdout = [], stderr = [] \<rparr>;
          (localSeen1, st1) =
             scanAndPrint unmarshal fs Rel inlineProgress root (Join root ''holons'')
               ''local'' ''local'' (Some {}) st0;
          (localSeen2, st2) =
             scanAndPrint unmarshal fs Rel inlineProgress root root ''root'' ''local'' localSeen1 st1;
          cacheDir = holonCacheDir home;
          st3 = (if cacheDir \<noteq> []
                 then snd (scanAndPrint unmarshal fs Rel inlineProgress root cacheDir
                             ''cache'' ''cached'' None st2)
                 else st2);
          st4 = clearProgressLine inlineProgress st3;
          st5 = (if printedEntries st4 = 0 then st4 \<lparr> stdout := stdout st4 @ [NoHolonsLine] \<rparr>
                 else st4)
      in (None, st5))"

text \<open>
  The specification of the listing, in the words of the spec. The de-duplication key of
  a record is its identifier, or its file path when the identifier is empty;
  \<open>dedupe_first\<close> keeps, of the records of a list, the first one for each key that is not
  in the set already; \<open>row_of\<close> is the row of a record under an origin label.
\<close>

definition dedupe_key :: "LocatedIdentity \<Rightarrow> string" where
  "dedupe_key h = (if UUID (Ident h) = [] then Path h else UUID (Ident h))"

fun dedupe_first :: "string set \<Rightarrow> LocatedIdentity list \<Rightarrow> LocatedIdentity list" where
  "dedupe_first seen [] = []"
| "dedupe_first seen (h # hs) =
     (if dedupe_key h \<in> seen then dedupe_first seen hs
      else h # dedupe_first (insert (dedupe_key h) seen) hs)"

definition row_of ::
  "(string \<Rightarrow> string \<Rightarrow> error + string) \<Rightarrow> string \<Rightarrow> string \<Rightarrow> LocatedIdentity \<Rightarrow> out_line" where
  "row_of Rel root origin h =
     Row (UUID (Ident h)) (TrimSpace (GivenName (Ident h) @ '' '' @ FamilyName (Ident h)))
       origin (Clade (Ident h)) (Status (Ident h)) (relHolonDir Rel root (Path h))"

fun is_row :: "out_line \<Rightarrow> bool" where
  "is_row (Row u n origin c s p) = True"
| "is_row line = False"

text \<open>
  A project for the examples of the listing: a record directly under the root, one under
  \<open>holons\<close>, and a cache that holds the second one too.
\<close>

definition listing_fs :: filesystem where
  "listing_fs path =
     (if path = ''/w'' then
        Inr (Dir ''w''
               [File ''HOLON.md'' (Some (example_content ''root-uuid'')),
                Dir ''holons'' [Dir ''x'' [File ''HOLON.md'' (Some (example_content ''x-uuid''))] None] None]
               None)
      else if path = ''/w/holons'' then
        Inr (Dir ''holons'' [Dir ''x'' [File ''HOLON.md'' (Some (example_content ''x-uuid''))] None] None)
      else if path = ''/home/u/.holon/cache'' then
        Inr (Dir ''cache'' [Dir ''x'' [File ''HOLON.md'' (Some (example_content ''x-uuid''))] None] None)
      else Inl (OSError ''no such file or directory''))"

section \<open>Rendering\<close>

text \<open>
  The two functions of \<open>tmplFuncs\<close>. \<open>quote\<close> is \<open>fmt.Sprintf("%q", s)\<close>, which is
  \<open>strconv.Quote\<close>; it is a parameter of the template. \<open>joinQuoted\<close> quotes every
  element and joins them with \<open>", "\<close>.
\<close>

fun join_comma :: "string list \<Rightarrow> string" where
  "join_comma [] = []"
| "join_comma [s] = s"
| "join_comma (s # ss) = s @ '', '' @ join_comma ss"

definition joinQuoted :: "(string \<Rightarrow> string) \<Rightarrow> string list \<Rightarrow> string" where
  "joinQuoted quote ss = join_comma (map quote ss)"

text \<open>
  The text that \<open>holonTemplate\<close> renders for a record, in three parts: the lines between
  the two delimiters, the text after the closing delimiter, and the whole.
\<close>

definition frontmatter_block :: "(string \<Rightarrow> string) \<Rightarrow> Identity \<Rightarrow> string" where
  "frontmatter_block quote ident =
     ''# Holon Identity v1'' @ [NL] @
     ''uuid: '' @ quote (UUID ident) @ [NL] @
     ''given_name: '' @ quote (GivenName ident) @ [NL] @
     ''family_name: '' @ quote (FamilyName ident) @ [NL] @
     ''motto: '' @ quote (Motto ident) @ [NL] @
     ''composer: '' @ quote (Composer ident) @ [NL] @
     ''clade: '' @ quote (Clade ident) @ [NL] @
     ''status: '' @ Status ident @ [NL] @
     ''born: '' @ quote (Born ident) @ [NL] @
     [NL] @
     ''# Lineage'' @ [NL] @
     ''parents: ['' @ joinQuoted quote (Parents ident) @ '']'' @ [NL] @
     ''reproduction: '' @ quote (Reproduction ident) @ [NL] @
     [NL] @
     ''# Optional'' @ [NL] @
     ''aliases: ['' @ joinQuoted quote (Aliases ident) @ '']'' @ [NL] @
     [NL] @
     ''# Metadata'' @ [NL] @
     ''generated_by: '' @ quote (GeneratedBy ident) @ [NL] @
     ''lang: '' @ quote (Lang ident) @ [NL] @
     ''proto_status: '' @ ProtoStatus ident"

definition holon_body :: "Identity \<Rightarrow> string" where
  "holon_body ident =
     [NL] @ [NL] @
     ''# '' @ GivenName ident @ '' '' @ FamilyName ident @ [NL] @
     [NL] @
     ''> *'' @ [DQ] @ Motto ident @ [DQ] @ ''*'' @ [NL] @
     [NL] @
     ''## Description'' @ [NL] @
     [NL] @
     ''<Describe what this holon does.>'' @ [NL] @
     [NL] @
     ''## Introspection Notes'' @ [NL] @
     [NL] @
     ''<Any assumptions or ambiguities noted during creation.>'' @ [NL]"

definition holonTemplate :: "(string \<Rightarrow> string) \<Rightarrow> Identity \<Rightarrow> string" where
  "holonTemplate quote ident =
     ''---'' @ [NL] @ frontmatter_block quote ident @ [NL] @ ''---'' @ holon_body ident"

text \<open>
  \<open>strconv.Quote\<close> on strings of ASCII bytes, for the examples: the string between
  double quotes, with a backslash before a double quote and a backslash, the escapes
  \<open>\a \b \f \n \r \t \v\<close>, and \<open>\x\<close> with two hexadecimal digits for every other byte
  that is not printable ASCII.
\<close>

definition hex_digit :: "nat \<Rightarrow> char" where
  "hex_digit n = ''0123456789abcdef'' ! (n mod 16)"

definition quote_byte :: "char \<Rightarrow> string" where
  "quote_byte c =
     (if c = DQ then [CHR 0x5C, DQ]
      else if c = CHR 0x5C then [CHR 0x5C, CHR 0x5C]
      else if c = CHR 0x07 then [CHR 0x5C, CHR ''a'']
      else if c = CHR 0x08 then [CHR 0x5C, CHR ''b'']
      else if c = CHR 0x0C then [CHR 0x5C, CHR ''f'']
      else if c = CHR 0x0A then [CHR 0x5C, CHR ''n'']
      else if c = CHR 0x0D then [CHR 0x5C, CHR ''r'']
      else if c = CHR 0x09 then [CHR 0x5C, CHR ''t'']
      else if c = CHR 0x0B then [CHR 0x5C, CHR ''v'']
      else if of_char c < (0x20 :: nat) \<or> (0x7F :: nat) \<le> of_char c
        then [CHR 0x5C, CHR ''x'', hex_digit (of_char c div 16), hex_digit (of_char c)]
      else [c])"

definition quote_ascii :: "string \<Rightarrow> string" where
  "quote_ascii s = [DQ] @ concat (map quote_byte s) @ [DQ]"

section \<open>The service\<close>

text \<open>
  Modelled from the spec: the generated protobuf types of package \<open>pb\<close> are not among the
  sources. The enumerations have the values, and the messages the fields, that
  server.go names; a field of a message carries the prefix of its message here.
\<close>

datatype pb_Clade =
    CLADE_UNSPECIFIED
  | DETERMINISTIC_PURE
  | DETERMINISTIC_STATEFUL
  | DETERMINISTIC_IO_BOUND
  | PROBABILISTIC_GENERATIVE
  | PROBABILISTIC_PERCEPTUAL
  | PROBABILISTIC_ADAPTIVE

datatype pb_Status = STATUS_UNSPECIFIED | DRAFT | STABLE | DEPRECATED | DEAD

datatype pb_ReproductionMode =
    REPRODUCTION_UNSPECIFIED
  | MANUAL
  | ASSISTED
  | AUTOMATIC
  | AUTOPOIETIC
  | BRED

record HolonIdentity =
  pb_Uuid :: string
  pb_GivenName :: string
  pb_FamilyName :: string
  pb_Motto :: string
  pb_Composer :: string
  pb_Clade :: pb_Clade
  pb_Status :: pb_Status
  pb_Born :: string
  pb_Parents :: "string list"
  pb_Reproduction :: pb_ReproductionMode
  pb_Aliases :: "string list"
  pb_GeneratedBy :: string
  pb_Lang :: string
  pb_ProtoStatus :: pb_Status

record CreateIdentityRequest =
  req_GivenName :: string
  req_FamilyName :: string
  req_Motto :: string
  req_Composer :: string
  req_Clade :: pb_Clade
  req_Reproduction :: pb_ReproductionMode
  req_Lang :: string
  req_Aliases :: "string list"
  req_OutputDir :: string

record CreateIdentityResponse =
  resp_Identity :: HolonIdentity
  resp_FilePath :: string

fun cladeToString :: "pb_Clade \<Rightarrow> string" where
  "cladeToString DETERMINISTIC_PURE = ''deterministic/pure''"
| "cladeToString DETERMINISTIC_STATEFUL = ''deterministic/stateful''"
| "cladeToString DETERMINISTIC_IO_BOUND = ''deterministic/io_bound''"
| "cladeToString PROBABILISTIC_GENERATIVE = ''probabilistic/generative''"
| "cladeToString PROBABILISTIC_PERCEPTUAL = ''probabilistic/perceptual''"
| "cladeToString PROBABILISTIC_ADAPTIVE = ''probabilistic/adaptive''"
| "cladeToString CLADE_UNSPECIFIED = ''deterministic/pure''"

definition stringToClade :: "string \<Rightarrow> pb_Clade" where
  "stringToClade s =
     (if s = ''deterministic/pure'' then DETERMINISTIC_PURE
      else if s = ''deterministic/stateful'' then DETERMINISTIC_STATEFUL
      else if s = ''deterministic/io_bound'' then DETERMINISTIC_IO_BOUND
      else if s = ''probabilistic/generative'' then PROBABILISTIC_GENERATIVE
      else if s = ''probabilistic/perceptual'' then PROBABILISTIC_PERCEPTUAL
      else if s = ''probabilistic/adaptive'' then PROBABILISTIC_ADAPTIVE
      else CLADE_UNSPECIFIED)"

definition stringToStatus :: "string \<Rightarrow> pb_Status" where
  "stringToStatus s =
     (if s = ''draft'' then DRAFT
      else if s = ''stable'' then STABLE
      else if s = ''deprecated'' then DEPRECATED
      else if s = ''dead'' then DEAD
      else STATUS_UNSPECIFIED)"

fun reproductionToString :: "pb_ReproductionMode \<Rightarrow> string" where
  "reproductionToString MANUAL = ''manual''"
| "reproductionToString ASSISTED = ''assisted''"
| "reproductionToString AUTOMATIC = ''automatic''"
| "reproductionToString AUTOPOIETIC = ''autopoietic''"
| "reproductionToString BRED = ''bred''"
| "reproductionToString REPRODUCTION_UNSPECIFIED = ''manual''"

definition stringToReproduction :: "string \<Rightarrow> pb_ReproductionMode" where
  "stringToReproduction s =
     (if s = ''manual'' then MANUAL
      else if s = ''assisted'' then ASSISTED
      else if s = ''automatic'' then AUTOMATIC
      else if s = ''autopoietic'' then AUTOPOIETIC
      else if s = ''bred'' then BRED
      else REPRODUCTION_UNSPECIFIED)"

definition toProto :: "Identity \<Rightarrow> HolonIdentity" where
  "toProto ident =
     \<lparr> pb_Uuid = UUID ident,
       pb_GivenName = GivenName ident,
       pb_FamilyName = FamilyName ident,
       pb_Motto = Motto ident,
       pb_Composer = Composer ident,
       pb_Clade = stringToClade (Clade ident),
       pb_Status = stringToStatus (Status ident),
       pb_Born = Born ident,
       pb_Parents = Parents ident,
       pb_Reproduction = stringToReproduction (Reproduction ident),
       pb_Aliases = Aliases ident,
       pb_GeneratedBy = GeneratedBy ident,
       pb_Lang = Lang ident,
       pb_ProtoStatus = stringToStatus (ProtoStatus ident) \<rparr>"

text \<open>
  The operations of the operating system and of the libraries that creating a record
  uses, over a state \<open>'w\<close> of the world: \<open>os.MkdirAll\<close>, \<open>os.Create\<close>, the writes of
  \<open>tmpl.Execute\<close> to the created file (path and content), \<open>uuid.New().String()\<close>,
  \<open>time.Now().Format("2006-01-02")\<close> and \<open>strings.ToLower\<close>.
\<close>

record 'w system =
  sys_MkdirAll :: "string \<Rightarrow> 'w \<Rightarrow> error option \<times> 'w"
  sys_Create :: "string \<Rightarrow> 'w \<Rightarrow> error option \<times> 'w"
  sys_Write :: "string \<Rightarrow> string \<Rightarrow> 'w \<Rightarrow> error option \<times> 'w"
  sys_NewUUID :: "'w \<Rightarrow> string \<times> 'w"
  sys_Today :: "'w \<Rightarrow> string"
  sys_ToLower :: "string \<Rightarrow> string"

text \<open>\<open>identity.New\<close>.\<close>

definition New :: "'w system \<Rightarrow> 'w \<Rightarrow> Identity \<times> 'w" where
  "New sys w =
     (case sys_NewUUID sys w of
        (uuid, w1) \<Rightarrow>
          (Identity_zero \<lparr> UUID := uuid, Status := ''draft'', Born := sys_Today sys w1,
             Parents := [], GeneratedBy := ''sophia-who'', ProtoStatus := ''draft'' \<rparr>, w1))"

text \<open>
  \<open>WriteHolonMD\<close>. Parsing the constant template does not fail, and executing it fails
  only when a write fails.
\<close>

definition WriteHolonMD ::
  "(string \<Rightarrow> string) \<Rightarrow> 'w system \<Rightarrow> Identity \<Rightarrow> string \<Rightarrow> 'w \<Rightarrow> error option \<times> 'w" where
  "WriteHolonMD quote sys ident path w =
     (case sys_Create sys path w of
        (Some err, w1) \<Rightarrow> (Some (ErrorfW (''cannot create '' @ path @ '': '') err), w1)
      | (None, w1) \<Rightarrow>
          (case sys_Write sys path (holonTemplate quote ident) w1 of
             (Some err, w2) \<Rightarrow> (Some (ErrorfW ''template execution error: '' err), w2)
           | (None, w2) \<Rightarrow> (None, w2)))"

text \<open>\<open>strings.TrimSuffix\<close>, and \<open>strings.ReplaceAll\<close> of one byte by one byte.\<close>

definition TrimSuffix :: "string \<Rightarrow> string \<Rightarrow> string" where
  "TrimSuffix s suf = (if suffix suf s then take (length s - length suf) s else s)"

definition ReplaceAll_byte :: "string \<Rightarrow> char \<Rightarrow> char \<Rightarrow> string" where
  "ReplaceAll_byte s old new = map (\<lambda>c. if c = old then new else c) s"

text \<open>
  \<open>Server.CreateIdentity\<close>. A nil request is \<open>None\<close>. The result is the response or the
  error, and the state of the world afterwards.
\<close>

definition CreateIdentity ::
  "(string \<Rightarrow> string) \<Rightarrow> 'w system \<Rightarrow> CreateIdentityRequest option \<Rightarrow> 'w \<Rightarrow>
   (error + CreateIdentityResponse) \<times> 'w" where
  "CreateIdentity quote sys req0 w =
     (case req0 of
        None \<Rightarrow> (Inl (StatusError InvalidArgument ''request is required''), w)
      | Some req \<Rightarrow>
          if TrimSpace (req_GivenName req) = [] then
            (Inl (StatusError InvalidArgument ''given_name is required''), w)
          else if TrimSpace (req_FamilyName req) = [] then
            (Inl (StatusError InvalidArgument ''family_name is required''), w)
          else if TrimSpace (req_Motto req) = [] then
            (Inl (StatusError InvalidArgument ''motto is required''), w)
          else if TrimSpace (req_Composer req) = [] then
            (Inl (StatusError InvalidArgument ''composer is required''), w)
          else
            (case New sys w of
               (id0, w1) \<Rightarrow>
                 let id1 = id0 \<lparr> GivenName := req_GivenName req,
                                 FamilyName := req_FamilyName req,
                                 Motto := req_Motto req,
                                 Composer := req_Composer req,
                                 Clade := cladeToString (req_Clade req),
                                 Reproduction := reproductionToString (req_Reproduction req) \<rparr>;
                     id2 = (if req_Lang req \<noteq> [] then id1 \<lparr> Lang := req_Lang req \<rparr> else id1);
                     ident = (if length (req_Aliases req) > 0
                              then id2 \<lparr> Aliases := req_Aliases req \<rparr> else id2);
                     outputDir =
                       (if req_OutputDir req = [] then
                          Join ''.holon''
                            (ReplaceAll_byte
                               (sys_ToLower sys (GivenName ident @ ''-'' @ TrimSuffix (FamilyName ident) ''?''))
                               (CHR '' '') (CHR ''-''))
                        else req_OutputDir req)
                 in (case sys_MkdirAll sys outputDir w1 of
                       (Some err, w2) \<Rightarrow>
                         (Inl (StatusError Internal (''cannot create directory: '' @ Error_text err)), w2)
                     | (None, w2) \<Rightarrow>
                         let outputPath = Join outputDir ''HOLON.md''
                         in (case WriteHolonMD quote sys ident outputPath w2 of
                               (Some err, w3) \<Rightarrow>
                                 (Inl (StatusError Internal (''write HOLON.md: '' @ Error_text err)), w3)
                             | (None, w3) \<Rightarrow>
                                 (Inr \<lparr> resp_Identity = toProto ident, resp_FilePath = outputPath \<rparr>,
                                  w3)))))"

text \<open>
  The specification of a blank string, in the words of the spec: empty, or made of
  white space only.
\<close>

definition blank :: "string \<Rightarrow> bool" where
  "blank s \<longleftrightarrow> (\<exists>ws. set ws \<subseteq> set space_runes \<and> s = concat ws)"

section \<open>Facts about \<open>Index\<close>\<close>

lemma Index_ge: "- 1 \<le> Index s sep"
  by (induction s) (auto simp: Let_def)

lemma Index_neg_iff: "Index s sep < 0 \<longleftrightarrow> (\<forall>i. \<not> prefix sep (drop i s))"
proof (induction s)
  case Nil
  then show ?case by auto
next
  case (Cons c s)
  show ?case
  proof (cases "prefix sep (c # s)")
    case True
    then have "prefix sep (drop 0 (c # s))" by simp
    with True show ?thesis by (auto simp del: drop0)
  next
    case False
    have "(\<forall>i. \<not> prefix sep (drop i (c # s))) \<longleftrightarrow> (\<forall>i. \<not> prefix sep (drop i s))"
    proof
      assume h: "\<forall>i. \<not> prefix sep (drop i (c # s))"
      show "\<forall>i. \<not> prefix sep (drop i s)"
      proof
        fix i
        from h have "\<not> prefix sep (drop (Suc i) (c # s))" by blast
        then show "\<not> prefix sep (drop i s)" by simp
      qed
    next
      assume h: "\<forall>i. \<not> prefix sep (drop i s)"
      show "\<forall>i. \<not> prefix sep (drop i (c # s))"
      proof
        fix i
        show "\<not> prefix sep (drop i (c # s))"
          using False h by (cases i) auto
      qed
    qed
    with False Cons Index_ge [of s sep] show ?thesis
      by (auto simp: Let_def)
  qed
qed

lemma Index_prefix: "prefix sep s \<Longrightarrow> Index s sep = 0"
  by (cases s) auto

lemma Index_first:
  "\<forall>i<length a. \<not> prefix sep (drop i (a @ sep @ b)) \<Longrightarrow> Index (a @ sep @ b) sep = int (length a)"
proof (induction a)
  case Nil
  then show ?case by (simp add: Index_prefix)
next
  case (Cons c a)
  have "\<forall>i<length a. \<not> prefix sep (drop i (a @ sep @ b))"
  proof (intro allI impI)
    fix i assume "i < length a"
    then have "Suc i < length (c # a)" by simp
    with Cons.prems have "\<not> prefix sep (drop (Suc i) ((c # a) @ sep @ b))" by blast
    then show "\<not> prefix sep (drop i (a @ sep @ b))" by simp
  qed
  then have r: "Index (a @ sep @ b) sep = int (length a)" by (rule Cons.IH)
  from Cons.prems have "\<not> prefix sep (drop 0 ((c # a) @ sep @ b))" by blast
  then have "\<not> prefix sep (c # a @ sep @ b)" by simp
  with r show ?case by (simp add: Let_def)
qed

lemma Index_least: "Index s sep = int n \<Longrightarrow> i < n \<Longrightarrow> \<not> prefix sep (drop i s)"
proof (induction s arbitrary: n i)
  case Nil
  then show ?case by (auto split: if_splits)
next
  case (Cons c s)
  show ?case
  proof (cases "prefix sep (c # s)")
    case True
    with Cons.prems show ?thesis by simp
  next
    case False
    with Cons.prems have r: "Index s sep = int (n - 1)" and n: "0 < n"
      by (auto simp: Let_def split: if_splits)
    show ?thesis
    proof (cases i)
      case 0
      with False show ?thesis by simp
    next
      case (Suc j)
      with Cons.prems n have "j < n - 1" by simp
      from Cons.IH [OF r this] Suc show ?thesis by simp
    qed
  qed
qed

lemma frontmatter_rest_shape:
  "content = ''---'' @ [NL] @ rest \<or> (content = ''---'' @ rest \<and> \<not> prefix [NL] rest)
     \<Longrightarrow> prefix ''---'' content \<and> frontmatter_rest content = rest"
  by (cases rest) (auto simp: frontmatter_rest_def Let_def)

section \<open>The decode contract\<close>

text \<open>
  C5, as amended. \<open>ParseFrontmatter\<close> fails with "no YAML frontmatter found" when the
  content does not begin with the three characters \<open>---\<close>; they need not form a line of
  their own. After them and after at most one newline that directly follows them, it fails
  with "unclosed YAML frontmatter" when no newline followed by \<open>---\<close> occurs, and with
  "YAML parse error" when the decoder rejects the bytes before the first such occurrence;
  when the decoder accepts them, the decoded record is returned with everything after
  that occurrence as the body. Whenever an error is returned, the record is the zero
  record and the body is empty.
\<close>

theorem ParseFrontmatter_decode_contract:
  "(\<not> prefix ''---'' content \<longrightarrow>
      ParseFrontmatter unmarshal content =
        (Identity_zero, [], Some (Errorf ''no YAML frontmatter found'')))
   \<and> (content = ''---'' @ [NL] @ rest \<or> (content = ''---'' @ rest \<and> \<not> prefix [NL] rest) \<longrightarrow>
        ((\<forall>i. \<not> prefix (NL # ''---'') (drop i rest)) \<longrightarrow>
           ParseFrontmatter unmarshal content =
             (Identity_zero, [], Some (Errorf ''unclosed YAML frontmatter'')))
        \<and> (rest = block @ (NL # ''---'') @ body
             \<and> (\<forall>i<length block. \<not> prefix (NL # ''---'') (drop i rest)) \<longrightarrow>
             (\<forall>err. unmarshal block = Inl err \<longrightarrow>
                ParseFrontmatter unmarshal content =
                  (Identity_zero, [], Some (ErrorfW ''YAML parse error: '' err)))
             \<and> (\<forall>ident. unmarshal block = Inr ident \<longrightarrow>
                ParseFrontmatter unmarshal content = (ident, body, None))))
   \<and> (\<forall>e. snd (snd (ParseFrontmatter unmarshal content)) = Some e \<longrightarrow>
        ParseFrontmatter unmarshal content = (Identity_zero, [], Some e))"
proof (intro conjI impI allI)
  assume "\<not> prefix ''---'' content"
  then show "ParseFrontmatter unmarshal content =
      (Identity_zero, [], Some (Errorf ''no YAML frontmatter found''))"
    by (simp add: ParseFrontmatter_def)
next
  assume shape: "content = ''---'' @ [NL] @ rest \<or> (content = ''---'' @ rest \<and> \<not> prefix [NL] rest)"
    and no: "\<forall>i. \<not> prefix (NL # ''---'') (drop i rest)"
  from frontmatter_rest_shape [OF shape] have p: "prefix ''---'' content"
    and r: "frontmatter_rest content = rest" by simp_all
  from no have "Index rest closing < 0" by (simp add: Index_neg_iff closing_def)
  with p r show "ParseFrontmatter unmarshal content =
      (Identity_zero, [], Some (Errorf ''unclosed YAML frontmatter''))"
    by (simp add: ParseFrontmatter_def Let_def)
next
  fix err
  assume shape: "content = ''---'' @ [NL] @ rest \<or> (content = ''---'' @ rest \<and> \<not> prefix [NL] rest)"
    and blk: "rest = block @ (NL # ''---'') @ body
      \<and> (\<forall>i<length block. \<not> prefix (NL # ''---'') (drop i rest))"
    and u: "unmarshal block = Inl err"
  from frontmatter_rest_shape [OF shape] have p: "prefix ''---'' content"
    and r: "frontmatter_rest content = rest" by simp_all
  from blk have "\<forall>i<length block. \<not> prefix closing (drop i (block @ closing @ body))"
    unfolding closing_def by blast
  then have "Index (block @ closing @ body) closing = int (length block)" by (rule Index_first)
  with blk have i: "Index rest closing = int (length block)" unfolding closing_def by blast
  from blk have t: "take (length block) rest = block" by simp
  from p r i t u show "ParseFrontmatter unmarshal content =
      (Identity_zero, [], Some (ErrorfW ''YAML parse error: '' err))"
    by (simp add: ParseFrontmatter_def Let_def)
next
  fix ident
  assume shape: "content = ''---'' @ [NL] @ rest \<or> (content = ''---'' @ rest \<and> \<not> prefix [NL] rest)"
    and blk: "rest = block @ (NL # ''---'') @ body
      \<and> (\<forall>i<length block. \<not> prefix (NL # ''---'') (drop i rest))"
    and u: "unmarshal block = Inr ident"
  from frontmatter_rest_shape [OF shape] have p: "prefix ''---'' content"
    and r: "frontmatter_rest content = rest" by simp_all
  from blk have "\<forall>i<length block. \<not> prefix closing (drop i (block @ closing @ body))"
    unfolding closing_def by blast
  then have "Index (block @ closing @ body) closing = int (length block)" by (rule Index_first)
  with blk have i: "Index rest closing = int (length block)" unfolding closing_def by blast
  from blk have t: "take (length block) rest = block"
    and d: "drop (length block + 4) rest = body" by simp_all
  from p r i t d u show "ParseFrontmatter unmarshal content = (ident, body, None)"
    by (simp add: ParseFrontmatter_def Let_def)
next
  fix e
  assume "snd (snd (ParseFrontmatter unmarshal content)) = Some e"
  then show "ParseFrontmatter unmarshal content = (Identity_zero, [], Some e)"
    by (auto simp: ParseFrontmatter_def Let_def split: if_splits sum.splits)
qed


theorem ParseFrontmatter_decode_contract_witness:
  "ParseFrontmatter unmarshal_uuid ''# Just markdown''
     = (Identity_zero, [], Some (Errorf ''no YAML frontmatter found''))
   \<and> ParseFrontmatter unmarshal_uuid (''---'' @ [NL] @ ''---'' @ [NL] @ ''body'')
     = (Identity_zero, [], Some (Errorf ''unclosed YAML frontmatter''))
   \<and> ParseFrontmatter unmarshal_uuid (''---'' @ [NL] @ '': broken [['' @ (NL # ''---'') @ [NL])
     = (Identity_zero, [], Some (ErrorfW ''YAML parse error: '' (Errorf ''yaml: unmarshal errors'')))
   \<and> ParseFrontmatter unmarshal_uuid
        (''---'' @ [NL] @ (''uuid: '' @ [DQ] @ ''x'' @ [DQ]) @ (NL # ''---'') @ [NL, CHR ''#''])
     = (Identity_zero \<lparr> UUID := ''x'' \<rparr>, [NL, CHR ''#''], None)"
proof -
  note T = ParseFrontmatter_decode_contract
  let ?c2 = "''---'' @ [NL] @ ''---'' @ [NL] @ ''body''"
  let ?r2 = "''---'' @ [NL] @ ''body''"
  let ?b3 = "'': broken [[''"
  let ?r3 = "?b3 @ (NL # ''---'') @ [NL]"
  let ?b4 = "''uuid: '' @ [DQ] @ ''x'' @ [DQ]"
  let ?r4 = "?b4 @ (NL # ''---'') @ [NL, CHR ''#'']"
  have c1: "ParseFrontmatter unmarshal_uuid ''# Just markdown''
     = (Identity_zero, [], Some (Errorf ''no YAML frontmatter found''))"
  proof (rule mp [OF conjunct1 [OF T]])
    show "\<not> prefix ''---'' ''# Just markdown''" by simp
  qed
  have s2: "?c2 = ''---'' @ [NL] @ ?r2 \<or> (?c2 = ''---'' @ ?r2 \<and> \<not> prefix [NL] ?r2)" by simp
  have n2: "\<forall>i. \<not> prefix (NL # ''---'') (drop i ?r2)"
    unfolding Index_neg_iff [symmetric] by simp
  have c2: "ParseFrontmatter unmarshal_uuid ?c2
     = (Identity_zero, [], Some (Errorf ''unclosed YAML frontmatter''))"
    by (rule mp [OF conjunct1 [OF mp [OF conjunct1 [OF conjunct2 [OF T]] s2]] n2])
  have s3: "''---'' @ [NL] @ ?r3 = ''---'' @ [NL] @ ?r3
      \<or> (''---'' @ [NL] @ ?r3 = ''---'' @ ?r3 \<and> \<not> prefix [NL] ?r3)" by simp
  have i3: "Index ?r3 (NL # ''---'') = int (length ?b3)" by simp
  have n3: "?r3 = ?b3 @ (NL # ''---'') @ [NL]
      \<and> (\<forall>i<length ?b3. \<not> prefix (NL # ''---'') (drop i ?r3))"
    using Index_least [OF i3] by blast
  have u3: "unmarshal_uuid ?b3 = Inl (Errorf ''yaml: unmarshal errors'')"
    by (simp add: unmarshal_uuid_def)
  have c3: "ParseFrontmatter unmarshal_uuid (''---'' @ [NL] @ ?r3)
     = (Identity_zero, [], Some (ErrorfW ''YAML parse error: '' (Errorf ''yaml: unmarshal errors'')))"
    using mp [OF conjunct2 [OF mp [OF conjunct1 [OF conjunct2 [OF T]] s3]] n3] u3 by blast
  have s4: "''---'' @ [NL] @ ?r4 = ''---'' @ [NL] @ ?r4
      \<or> (''---'' @ [NL] @ ?r4 = ''---'' @ ?r4 \<and> \<not> prefix [NL] ?r4)" by simp
  have i4: "Index ?r4 (NL # ''---'') = int (length ?b4)" by simp
  have n4: "?r4 = ?b4 @ (NL # ''---'') @ [NL, CHR ''#'']
      \<and> (\<forall>i<length ?b4. \<not> prefix (NL # ''---'') (drop i ?r4))"
    using Index_least [OF i4] by blast
  have u4: "unmarshal_uuid ?b4 = Inr (Identity_zero \<lparr> UUID := ''x'' \<rparr>)"
    by (simp add: unmarshal_uuid_def)
  have c4: "ParseFrontmatter unmarshal_uuid (''---'' @ [NL] @ ?r4)
     = (Identity_zero \<lparr> UUID := ''x'' \<rparr>, [NL, CHR ''#''], None)"
    using mp [OF conjunct2 [OF mp [OF conjunct1 [OF conjunct2 [OF T]] s4]] n4] u4 by blast
  from c1 c2 c3 c4 show ?thesis by (intro conjI)
qed

text \<open>
  C5 as stated fails: this content does not begin with a delimiter line (its first line
  is \<open>---uuid: "x"\<close>), and it is decoded without error.
\<close>

theorem ParseFrontmatter_delimiter_line_counterexample:
  "\<not> prefix (''---'' @ [NL]) (''---uuid: '' @ [DQ] @ ''x'' @ [DQ] @ [NL] @ ''---'')
   \<and> ParseFrontmatter unmarshal_uuid (''---uuid: '' @ [DQ] @ ''x'' @ [DQ] @ [NL] @ ''---'')
       = (Identity_zero \<lparr> UUID := ''x'' \<rparr>, [], None)"
  by (simp add: ParseFrontmatter_def frontmatter_rest_def closing_def unmarshal_uuid_def)

section \<open>The scan as a fold over the visited files\<close>

lemma file_events_append:
  "file_events um n (xs @ ys) sf =
     (case file_events um n xs sf of (e1, sf1) \<Rightarrow>
        (case file_events um n ys sf1 of (e2, sf2) \<Rightarrow> (e1 @ e2, sf2)))"
proof (induction xs arbitrary: sf)
  case Nil
  then show ?case by (cases sf) (simp split: prod.splits)
next
  case (Cons x xs)
  obtain s f where sf: "sf = (s, f)" by (cases sf)
  show ?case unfolding sf
    by (simp add: Cons Let_def split: prod.splits option.splits)
qed

lemma scanFn_file:
  assumes "\<not> IsDir d"
  shows "scanFn um n onFound onProgress path (Entry d) (s, f, u) =
     (case file_events um n [(path, d)] (s, f) of (evs, s', f') \<Rightarrow>
        (None, (s', f', fold (apply_event onFound onProgress) evs u)))"
  using assms
  by (cases onProgress; cases onFound)
     (auto simp: scanFn_def reportProgress_def decode_def periodic_def Let_def
        split: option.splits prod.splits)

lemma walk_scan:
  "walkDir (scanFn um n onFound onProgress) path d (s, f, u) =
     (case file_events um n (visible_files path d) (s, f) of (evs, s', f') \<Rightarrow>
        (None, (s', f', fold (apply_event onFound onProgress) evs u)))"
  "walkDirs (scanFn um n onFound onProgress) path ds (s, f, u) =
     (case file_events um n (visible_files_in path ds) (s, f) of (evs, s', f') \<Rightarrow>
        (None, (s', f', fold (apply_event onFound onProgress) evs u)))"
proof (induction path d and path ds arbitrary: s f u and s f u rule: visible_files_visible_files_in.induct)
  case (1 path name data)
  show ?case using scanFn_file [of "File name data" um n onFound onProgress path s f u] by simp
next
  case (2 path name dirs rerr)
  show ?case
  proof (cases "hidden name")
    case True
    then show ?thesis by (simp add: scanFn_def)
  next
    case False
    then show ?thesis using 2 [OF False]
      by (cases rerr) (simp_all add: scanFn_def)
  qed
next
  case (3 path)
  show ?case by simp
next
  case (4 path d1 ds)
  show ?case
    by (simp add: 4 file_events_append split: prod.splits)
qed

lemma ScanAllWithPaths_fold:
  "ScanAllWithPaths um fs root n onFound onProgress u =
     (None, fold (apply_event onFound onProgress)
              (scan_trace um (if n < 0 then 0 else n) (scan_files fs root)) u)"
proof (cases "Lstat fs root")
  case (Inl err)
  then show ?thesis
    by (cases onProgress)
       (simp_all add: ScanAllWithPaths_def WalkDir_def scanFn_def scan_trace_def scan_files_def
          reportProgress_def Let_def)
next
  case (Inr d)
  obtain evs s f where fe:
    "file_events um (if n < 0 then 0 else n) (visible_files root d) (0, 0) = (evs, s, f)"
    by (metis prod_cases3)
  show ?thesis
    using Inr fe walk_scan(1) [of um "if n < 0 then 0 else n" onFound onProgress root d 0 0 u]
    by (cases onProgress)
       (simp_all add: ScanAllWithPaths_def WalkDir_def scan_trace_def scan_files_def
          reportProgress_def Let_def)
qed

lemma fold_log:
  "fold (apply_event (Some (\<lambda>h evs. evs @ [Found h])) (Some (\<lambda>p evs. evs @ [Progress p]))) es acc
     = acc @ es"
proof (induction es arbitrary: acc)
  case Nil
  then show ?case by simp
next
  case (Cons e es)
  then show ?case by (cases e) simp_all
qed

lemma scan_events_trace:
  "scan_events um fs root n = scan_trace um (if n < 0 then 0 else n) (scan_files fs root)"
  by (simp add: scan_events_def ScanAllWithPaths_fold fold_log)

lemma ScanAllWithPaths_events:
  "ScanAllWithPaths um fs root n onFound onProgress u =
     (None, fold (apply_event onFound onProgress) (scan_events um fs root n) u)"
  by (simp add: scan_events_trace ScanAllWithPaths_fold)

lemma first_match_append:
  "first_match um t (xs @ ys) =
     (case first_match um t xs of None \<Rightarrow> first_match um t ys | Some h \<Rightarrow> Some h)"
  by (induction xs) (auto simp: first_match_def List.map_filter_def split: option.splits)

lemma first_match_single:
  "first_match um t [pd] =
     (case decode um pd of None \<Rightarrow> None | Some h \<Rightarrow> if matches t h then Some h else None)"
  by (simp add: first_match_def List.map_filter_def split: option.splits)

lemma findFn_file:
  assumes "\<not> IsDir d"
  shows "findFn um t path (Entry d) found =
     (case first_match um t [(path, d)] of
        None \<Rightarrow> (None, found) | Some h \<Rightarrow> (Some SkipAll, Path h))"
  using assms
  by (auto simp: findFn_def first_match_single decode_def matches_def
      split: option.splits prod.splits)

lemma walk_find:
  "walkDir (findFn um t) path d found =
     (case first_match um t (all_files path d) of
        None \<Rightarrow> (None, found) | Some h \<Rightarrow> (Some SkipAll, Path h))"
  "walkDirs (findFn um t) path ds found =
     (case first_match um t (all_files_in path ds) of
        None \<Rightarrow> (None, found) | Some h \<Rightarrow> (Some SkipAll, Path h))"
proof (induction path d and path ds arbitrary: found and found rule: all_files_all_files_in.induct)
  case (1 path name data)
  show ?case using findFn_file [of "File name data" um t path found] by simp
next
  case (2 path name dirs rerr)
  show ?case using 2
    by (cases rerr) (simp_all add: findFn_def)
next
  case (3 path)
  show ?case by (simp add: first_match_def List.map_filter_def)
next
  case (4 path d1 ds)
  show ?case
    by (simp add: 4 first_match_append split: option.splits)
qed

lemma Clean_nonempty: "Clean path \<noteq> []"
  by (simp add: Clean_def Let_def)

lemma Join_nonempty: "dir \<noteq> [] \<Longrightarrow> Join dir name \<noteq> []"
  by (simp add: Join_def JoinN_def Clean_nonempty)

lemma all_files_path_nonempty:
  "path \<noteq> [] \<Longrightarrow> (p, x) \<in> set (all_files path d) \<Longrightarrow> p \<noteq> []"
  "path \<noteq> [] \<Longrightarrow> (p, x) \<in> set (all_files_in path ds) \<Longrightarrow> p \<noteq> []"
proof (induction path d and path ds rule: all_files_all_files_in.induct)
  case (4 path d1 ds)
  from 4 have "Join path (Name d1) \<noteq> []" by (simp add: Join_nonempty)
  with 4 show ?case by auto
qed auto

lemma decode_Path: "decode um (p, d) = Some h \<Longrightarrow> Path h = p"
  by (auto simp: decode_def split: if_splits option.splits prod.splits)

lemma first_match_in: "first_match um t fl = Some h \<Longrightarrow> \<exists>d. (Path h, d) \<in> set fl"
proof -
  assume "first_match um t fl = Some h"
  then have "h \<in> set (List.map_filter (decode um) fl)"
    by (auto simp: first_match_def find_Some_iff)
  then obtain p d where "(p, d) \<in> set fl" "decode um (p, d) = Some h"
    by (auto simp: List.map_filter_def)
  then show ?thesis using decode_Path [of um p d h] by auto
qed

lemma FindByUUID_first_match:
  "FindByUUID um fs root t =
     (case first_match um t (walk_files fs root) of
        None \<Rightarrow> ([], Some (Errorf (''holon not found: '' @ t)))
      | Some h \<Rightarrow> (Path h, None))"
proof (cases "Lstat fs root")
  case (Inl err)
  then show ?thesis
    by (simp add: FindByUUID_def WalkDir_def findFn_def walk_files_def first_match_def
        List.map_filter_def)
next
  case (Inr d)
  then have root: "root \<noteq> []" by (auto simp: Lstat_def split: if_splits)
  show ?thesis
  proof (cases "first_match um t (all_files root d)")
    case None
    with Inr show ?thesis
      by (simp add: FindByUUID_def WalkDir_def walk_files_def walk_find(1))
  next
    case (Some h)
    then obtain x where "(Path h, x) \<in> set (all_files root d)" using first_match_in by blast
    with root have "Path h \<noteq> []" using all_files_path_nonempty(1) by blast
    with Inr Some show ?thesis
      by (simp add: FindByUUID_def WalkDir_def walk_files_def walk_find(1))
  qed
qed

section \<open>The resolver stops at the first match\<close>

lemma traced_find_step:
  assumes "traced (findFn um t) path arg (found, tr) = (r, found', tr')"
  shows "(r = None \<and> found' = found) \<or> (r = Some SkipAll \<and> found' = path)"
    and "tr' = tr @ [path]"
  using assms
  by (auto simp: traced_def findFn_def split: walk_arg.splits if_splits option.splits prod.splits)

lemma walk_traced_find:
  "walkDir (traced (findFn um t)) path d (found, tr) = (r, found', tr') \<Longrightarrow>
     (r = None \<and> found' = found) \<or> (r = Some SkipAll \<and> tr' \<noteq> [] \<and> last tr' = found')"
  "walkDirs (traced (findFn um t)) path ds (found, tr) = (r, found', tr') \<Longrightarrow>
     (r = None \<and> found' = found) \<or> (r = Some SkipAll \<and> tr' \<noteq> [] \<and> last tr' = found')"
proof (induction path d and path ds arbitrary: found tr r found' tr' and found tr r found' tr'
    rule: all_files_all_files_in.induct)
  case (1 path name data)
  then show ?case using traced_find_step [of um t path "Entry (File name data)" found tr r found' tr']
    by auto
next
  case (2 path name dirs rerr)
  let ?d = "Dir name dirs rerr"
  have e: "traced (findFn um t) path (Entry ?d) (found, tr) = (None, found, tr @ [path])"
    by (simp add: traced_def findFn_def)
  show ?case
  proof (cases rerr)
    case None
    with 2 e show ?thesis by simp
  next
    case (Some re)
    have e2: "traced (findFn um t) path (ReadDirFailed ?d re) (found, tr @ [path])
        = (None, found, tr @ [path] @ [path])"
      by (simp add: traced_def findFn_def)
    with 2 e Some show ?thesis by simp
  qed
next
  case (3 path)
  then show ?case by simp
next
  case (4 path d1 ds)
  obtain r1 f1 t1 where w1:
    "walkDir (traced (findFn um t)) (Join path (Name d1)) d1 (found, tr) = (r1, f1, t1)"
    by (metis prod_cases3)
  from 4(1) [OF w1] have c: "(r1 = None \<and> f1 = found) \<or> (r1 = Some SkipAll \<and> t1 \<noteq> [] \<and> last t1 = f1)" .
  show ?case
  proof (cases r1)
    case None
    with w1 4(3) have "walkDirs (traced (findFn um t)) path ds (f1, t1) = (r, found', tr')"
      by simp
    from 4(2) [OF this] c None show ?thesis by auto
  next
    case (Some a)
    with c have "r1 = Some SkipAll" by auto
    with w1 4(3) c show ?thesis by auto
  qed
qed

lemma WalkDir_traced_find:
  assumes "WalkDir fs root (traced (findFn um t)) ([], []) = (r, found, tr)" and "found \<noteq> []"
  shows "tr \<noteq> [] \<and> last tr = found"
proof (cases "Lstat fs root")
  case (Inl err)
  with assms show ?thesis
    by (auto simp: WalkDir_def traced_def findFn_def)
next
  case (Inr d)
  obtain r1 f1 t1 where w: "walkDir (traced (findFn um t)) root d ([], []) = (r1, f1, t1)"
    by (metis prod_cases3)
  from walk_traced_find(1) [OF w] have
    "(r1 = None \<and> f1 = []) \<or> (r1 = Some SkipAll \<and> t1 \<noteq> [] \<and> last t1 = f1)" .
  with assms Inr w show ?thesis
    by (auto simp: WalkDir_def split: if_splits)
qed

lemma walk_traced_erase:
  "\<exists>tr'. walkDir (traced fn) path d (s, tr) = (fst (walkDir fn path d s), snd (walkDir fn path d s), tr')"
  "\<exists>tr'. walkDirs (traced fn) path ds (s, tr) = (fst (walkDirs fn path ds s), snd (walkDirs fn path ds s), tr')"
proof (induction path d and path ds arbitrary: s tr and s tr rule: all_files_all_files_in.induct)
  case (1 path name data)
  show ?case by (simp add: traced_def split: prod.splits)
next
  case (2 path name dirs rerr)
  let ?d = "Dir name dirs rerr"
  obtain r1 s1 where f1: "fn path (Entry ?d) s = (r1, s1)" by (cases "fn path (Entry ?d) s")
  then have t1: "traced fn path (Entry ?d) (s, tr) = (r1, s1, tr @ [path])"
    by (simp add: traced_def)
  show ?case
  proof (cases r1)
    case (Some e)
    with f1 t1 show ?thesis by simp
  next
    case None
    show ?thesis
    proof (cases rerr)
      case rn: None
      from 2 [of s1 "tr @ [path]"] f1 t1 None rn show ?thesis by simp
    next
      case (Some re)
      obtain r2 s2 where f2: "fn path (ReadDirFailed ?d re) s1 = (r2, s2)"
        by (cases "fn path (ReadDirFailed ?d re) s1")
      then have t2: "traced fn path (ReadDirFailed ?d re) (s1, tr @ [path]) = (r2, s2, tr @ [path] @ [path])"
        by (simp add: traced_def)
      show ?thesis
      proof (cases r2)
        case r2n: None
        from 2 [of s2 "tr @ [path] @ [path]"] f1 t1 None Some f2 t2 r2n show ?thesis by simp
      next
        case (Some e)
        with f1 t1 None \<open>rerr = Some re\<close> f2 t2 show ?thesis by simp
      qed
    qed
  qed
next
  case (3 path)
  show ?case by simp
next
  case (4 path d1 ds)
  obtain r1 s1 where w1: "walkDir fn (Join path (Name d1)) d1 s = (r1, s1)"
    by (cases "walkDir fn (Join path (Name d1)) d1 s")
  with 4(1) [of s tr] obtain t1 where
    tw1: "walkDir (traced fn) (Join path (Name d1)) d1 (s, tr) = (r1, s1, t1)" by auto
  show ?case
  proof (cases r1)
    case None
    with 4(2) [of s1 t1] w1 tw1 show ?thesis by simp
  next
    case (Some e)
    with w1 tw1 show ?thesis by simp
  qed
qed

lemma WalkDir_traced_erase:
  "\<exists>tr'. WalkDir fs root (traced fn) (s, tr) = (fst (WalkDir fs root fn s), snd (WalkDir fs root fn s), tr')"
proof (cases "Lstat fs root")
  case (Inl err)
  then show ?thesis
    by (auto simp: WalkDir_def traced_def split: prod.splits option.splits)
next
  case (Inr d)
  obtain r1 s1 where w1: "walkDir fn root d s = (r1, s1)" by (cases "walkDir fn root d s")
  with walk_traced_erase(1) [of fn root d s tr] obtain t1 where
    "walkDir (traced fn) root d (s, tr) = (r1, s1, t1)" by auto
  with w1 Inr show ?thesis
    by (cases r1) (simp_all add: WalkDir_def)
qed

section \<open>The example tree\<close>

lemma example_joins:
  "Join ''/tmp/root'' ''.secret'' = ''/tmp/root/.secret''"
  "Join ''/tmp/root'' ''holon-a'' = ''/tmp/root/holon-a''"
  "Join ''/tmp/root'' ''holon-b'' = ''/tmp/root/holon-b''"
  "Join ''/tmp/root/.secret'' ''HOLON.md'' = ''/tmp/root/.secret/HOLON.md''"
  "Join ''/tmp/root/holon-a'' ''HOLON.md'' = ''/tmp/root/holon-a/HOLON.md''"
  "Join ''/tmp/root/holon-b'' ''HOLON.md'' = ''/tmp/root/holon-b/HOLON.md''"
  by (simp_all add: Join_def JoinN_def Clean_def)

lemma example_parse:
  "ParseFrontmatter unmarshal_uuid (example_content ''hidden-uuid'')
     = (Identity_zero \<lparr> UUID := ''hidden-uuid'' \<rparr>, [NL], None)"
  "ParseFrontmatter unmarshal_uuid (example_content ''aaaa-1111'')
     = (Identity_zero \<lparr> UUID := ''aaaa-1111'' \<rparr>, [NL], None)"
  "ParseFrontmatter unmarshal_uuid (example_content ''bbbb-2222'')
     = (Identity_zero \<lparr> UUID := ''bbbb-2222'' \<rparr>, [NL], None)"
  by (simp_all add: ParseFrontmatter_def example_content_def frontmatter_rest_def closing_def
      unmarshal_uuid_def Let_def)

lemma example_walk_files:
  "walk_files example_fs ''/tmp/root'' =
     [(''/tmp/root/.secret/HOLON.md'', File ''HOLON.md'' (Some (example_content ''hidden-uuid''))),
      (''/tmp/root/holon-a/HOLON.md'', File ''HOLON.md'' (Some (example_content ''aaaa-1111''))),
      (''/tmp/root/holon-b/HOLON.md'', File ''HOLON.md'' (Some (example_content ''bbbb-2222'')))]"
  by (simp add: walk_files_def Lstat_def example_fs_def example_tree_def example_joins)

lemma example_scan_files:
  "scan_files example_fs ''/tmp/root'' =
     [(''/tmp/root/holon-a/HOLON.md'', File ''HOLON.md'' (Some (example_content ''aaaa-1111''))),
      (''/tmp/root/holon-b/HOLON.md'', File ''HOLON.md'' (Some (example_content ''bbbb-2222'')))]"
  by (simp add: scan_files_def Lstat_def example_fs_def example_tree_def example_joins hidden_def)

lemma example_decoded:
  "List.map_filter (decode unmarshal_uuid) (walk_files example_fs ''/tmp/root'') =
     [\<lparr> Ident = Identity_zero \<lparr> UUID := ''hidden-uuid'' \<rparr>, Path = ''/tmp/root/.secret/HOLON.md'' \<rparr>,
      \<lparr> Ident = Identity_zero \<lparr> UUID := ''aaaa-1111'' \<rparr>, Path = ''/tmp/root/holon-a/HOLON.md'' \<rparr>,
      \<lparr> Ident = Identity_zero \<lparr> UUID := ''bbbb-2222'' \<rparr>, Path = ''/tmp/root/holon-b/HOLON.md'' \<rparr>]"
  by (simp add: example_walk_files List.map_filter_def decode_def example_parse)

section \<open>Resolver semantics\<close>

text \<open>
  C4. \<open>FindByUUID\<close> decodes the files named HOLON.md in traversal order, over every
  directory; a record matches when its identifier equals the target or starts with it.
  The result is the path of the first matching record, and the error
  "holon not found: <target>" when there is none. The walk stops at the match: with the
  callback instrumented to log every path it is called on, the last logged path is the
  returned one, and the instrumented walk returns what the plain walk returns.
\<close>

theorem FindByUUID_resolver:
  "FindByUUID um fs root t =
     (case find (\<lambda>h. UUID (Ident h) = t \<or> prefix t (UUID (Ident h)))
             (List.map_filter (decode um) (walk_files fs root)) of
        None \<Rightarrow> ([], Some (Errorf (''holon not found: '' @ t)))
      | Some h \<Rightarrow> (Path h, None))
   \<and> (\<forall>r found tr. WalkDir fs root (traced (findFn um t)) ([], []) = (r, found, tr) \<longrightarrow>
         WalkDir fs root (findFn um t) [] = (r, found)
         \<and> (found \<noteq> [] \<longrightarrow> tr \<noteq> [] \<and> last tr = found))"
proof (intro conjI allI impI)
  show "FindByUUID um fs root t =
     (case find (\<lambda>h. UUID (Ident h) = t \<or> prefix t (UUID (Ident h)))
             (List.map_filter (decode um) (walk_files fs root)) of
        None \<Rightarrow> ([], Some (Errorf (''holon not found: '' @ t)))
      | Some h \<Rightarrow> (Path h, None))"
    using FindByUUID_first_match [of um fs root t]
    by (simp add: first_match_def matches_def [abs_def])
next
  fix r found tr
  assume w: "WalkDir fs root (traced (findFn um t)) ([], []) = (r, found, tr)"
  with WalkDir_traced_erase [of fs root "findFn um t" "[]" "[]"]
  show "WalkDir fs root (findFn um t) [] = (r, found)"
    by (cases "WalkDir fs root (findFn um t) []") auto
next
  fix r found tr
  assume w: "WalkDir fs root (traced (findFn um t)) ([], []) = (r, found, tr)"
    and "found \<noteq> []"
  then show "tr \<noteq> []" and "last tr = found"
    using WalkDir_traced_find by blast+
qed

lemma example_traced:
  "WalkDir example_fs ''/tmp/root'' (traced (findFn unmarshal_uuid ''aaaa'')) ([], []) =
     (None, ''/tmp/root/holon-a/HOLON.md'',
      [''/tmp/root'', ''/tmp/root/.secret'', ''/tmp/root/.secret/HOLON.md'',
       ''/tmp/root/holon-a'', ''/tmp/root/holon-a/HOLON.md''])"
  by (simp add: WalkDir_def Lstat_def example_fs_def example_tree_def traced_def findFn_def
      example_joins example_parse Identity_zero_def)

theorem FindByUUID_resolver_witness:
  "FindByUUID unmarshal_uuid example_fs ''/tmp/root'' ''bbbb'' = (''/tmp/root/holon-b/HOLON.md'', None)
   \<and> FindByUUID unmarshal_uuid example_fs ''/tmp/root'' ''aaaa-1111'' = (''/tmp/root/holon-a/HOLON.md'', None)
   \<and> FindByUUID unmarshal_uuid example_fs ''/tmp/root'' ''cccc''
        = ([], Some (Errorf ''holon not found: cccc''))
   \<and> WalkDir example_fs ''/tmp/root'' (findFn unmarshal_uuid ''aaaa'') []
        = (None, ''/tmp/root/holon-a/HOLON.md'')
   \<and> last [''/tmp/root'', ''/tmp/root/.secret'', ''/tmp/root/.secret/HOLON.md'',
        ''/tmp/root/holon-a'', ''/tmp/root/holon-a/HOLON.md''] = ''/tmp/root/holon-a/HOLON.md''"
proof -
  note T = conjunct1 [OF FindByUUID_resolver]
  have a: "FindByUUID unmarshal_uuid example_fs ''/tmp/root'' ''bbbb'' = (''/tmp/root/holon-b/HOLON.md'', None)
   \<and> FindByUUID unmarshal_uuid example_fs ''/tmp/root'' ''aaaa-1111'' = (''/tmp/root/holon-a/HOLON.md'', None)
   \<and> FindByUUID unmarshal_uuid example_fs ''/tmp/root'' ''cccc''
        = ([], Some (Errorf ''holon not found: cccc''))"
    unfolding T [of unmarshal_uuid example_fs "''/tmp/root''"] example_decoded
    by (simp add: Identity_zero_def)
  have b: "WalkDir example_fs ''/tmp/root'' (findFn unmarshal_uuid ''aaaa'') []
        = (None, ''/tmp/root/holon-a/HOLON.md'')
   \<and> last [''/tmp/root'', ''/tmp/root/.secret'', ''/tmp/root/.secret/HOLON.md'',
        ''/tmp/root/holon-a'', ''/tmp/root/holon-a/HOLON.md''] = ''/tmp/root/holon-a/HOLON.md''"
    using conjunct2 [OF FindByUUID_resolver [of unmarshal_uuid example_fs "''/tmp/root''" "''aaaa''"]]
      example_traced
    by blast
  from a b show ?thesis by blast
qed

lemma founds_append: "founds (xs @ ys) = founds xs @ founds ys"
  by (induction xs rule: founds.induct) simp_all

lemma snapshots_append: "snapshots (xs @ ys) = snapshots xs @ snapshots ys"
  by (induction xs rule: snapshots.induct) simp_all

lemma fold_collect:
  "fold (apply_event (Some (\<lambda>h hs. hs @ [h])) None) es acc = acc @ founds es"
  by (induction es arbitrary: acc rule: founds.induct) simp_all

lemma file_events_founds:
  "founds (fst (file_events um n fl sf)) = List.map_filter (decode um) fl"
proof (induction fl arbitrary: sf)
  case Nil
  then show ?case by (cases sf) (simp add: List.map_filter_def)
next
  case (Cons pd fl)
  obtain s f where sf: "sf = (s, f)" by (cases sf)
  show ?case unfolding sf
    using Cons [of "(s + 1, f)"] Cons [of "(s + 1, f + 1)"]
    by (auto simp: List.map_filter_def Let_def founds_append split: option.splits prod.splits)
qed

lemma scan_trace_founds: "founds (scan_trace um n fl) = List.map_filter (decode um) fl"
proof -
  obtain evs s f where fe: "file_events um n fl (0, 0) = (evs, s, f)" by (metis prod_cases3)
  with file_events_founds [of um n fl "(0, 0)"] show ?thesis
    by (simp add: scan_trace_def founds_append)
qed

lemma FindAllWithPaths_eq:
  "FindAllWithPaths um fs root = (List.map_filter (decode um) (scan_files fs root), None)"
  by (simp add: FindAllWithPaths_def ScanAllWithPaths_fold fold_collect scan_trace_founds)

lemma file_events_zero:
  "fst (file_events um 0 fl sf) = map Found (List.map_filter (decode um) fl)"
proof (induction fl arbitrary: sf)
  case Nil
  then show ?case by (cases sf) (simp add: List.map_filter_def)
next
  case (Cons pd fl)
  obtain s f where sf: "sf = (s, f)" by (cases sf)
  show ?case unfolding sf
    using Cons [of "(s + 1, f)"] Cons [of "(s + 1, f + 1)"]
    by (auto simp: List.map_filter_def Let_def periodic_def split: option.splits prod.splits)
qed

section \<open>The empty target\<close>

text \<open>
  C9. When the tree under the root holds at least one valid identity file (a readable file
  named HOLON.md that decodes), \<open>FindByUUID\<close> with the empty target succeeds and returns
  the path of the first valid record in traversal order.
\<close>

theorem FindByUUID_empty_target:
  "List.map_filter (decode um) (walk_files fs root) = h # hs \<Longrightarrow>
     FindByUUID um fs root [] = (Path h, None)"
  by (simp add: FindByUUID_first_match first_match_def matches_def)

theorem FindByUUID_empty_target_witness:
  "FindByUUID unmarshal_uuid example_fs ''/tmp/root'' [] = (''/tmp/root/.secret/HOLON.md'', None)"
  using FindByUUID_empty_target [OF example_decoded] by simp

section \<open>Negative reporting interval\<close>

text \<open>
  C10. With a negative interval, \<open>ScanAllWithPaths\<close> returns what it returns with interval
  0, for all callbacks and every caller state; and the events it emits are the found
  records, in the order in which \<open>FindAllWithPaths\<close> (interval 0) lists them, followed
  by exactly one progress report.
\<close>

theorem negative_interval_as_zero:
  "n < 0 \<Longrightarrow>
     ScanAllWithPaths um fs root n onFound onProgress u
       = ScanAllWithPaths um fs root 0 onFound onProgress u
     \<and> (\<exists>p. scan_events um fs root n = map Found (fst (FindAllWithPaths um fs root)) @ [Progress p])"
proof -
  assume n: "n < 0"
  obtain evs s f where fe: "file_events um 0 (scan_files fs root) (0, 0) = (evs, s, f)"
    by (metis prod_cases3)
  with file_events_zero [of um "scan_files fs root" "(0, 0)"]
  have "evs = map Found (List.map_filter (decode um) (scan_files fs root))" by simp
  with n fe have "scan_events um fs root n =
      map Found (fst (FindAllWithPaths um fs root)) @ [Progress \<lparr> ScannedFiles = s, HolonsFound = f \<rparr>]"
    by (simp add: scan_events_trace scan_trace_def FindAllWithPaths_eq)
  then show ?thesis using n
    by (auto simp: ScanAllWithPaths_fold)
qed

lemma example_located:
  "List.map_filter (decode unmarshal_uuid) (scan_files example_fs ''/tmp/root'') =
     [\<lparr> Ident = Identity_zero \<lparr> UUID := ''aaaa-1111'' \<rparr>, Path = ''/tmp/root/holon-a/HOLON.md'' \<rparr>,
      \<lparr> Ident = Identity_zero \<lparr> UUID := ''bbbb-2222'' \<rparr>, Path = ''/tmp/root/holon-b/HOLON.md'' \<rparr>]"
  by (simp add: example_scan_files List.map_filter_def decode_def example_parse)

lemma example_events:
  "scan_events unmarshal_uuid example_fs ''/tmp/root'' 1 =
     [Progress \<lparr> ScannedFiles = 1, HolonsFound = 0 \<rparr>,
      Found \<lparr> Ident = Identity_zero \<lparr> UUID := ''aaaa-1111'' \<rparr>, Path = ''/tmp/root/holon-a/HOLON.md'' \<rparr>,
      Progress \<lparr> ScannedFiles = 2, HolonsFound = 1 \<rparr>,
      Found \<lparr> Ident = Identity_zero \<lparr> UUID := ''bbbb-2222'' \<rparr>, Path = ''/tmp/root/holon-b/HOLON.md'' \<rparr>,
      Progress \<lparr> ScannedFiles = 2, HolonsFound = 2 \<rparr>]"
  by (simp add: scan_events_trace scan_trace_def example_scan_files decode_def example_parse
      periodic_def)

theorem negative_interval_as_zero_witness:
  "ScanAllWithPaths unmarshal_uuid example_fs ''/tmp/root'' (- 3)
        (Some (\<lambda>h hs. hs @ [UUID (Ident h)])) (Some (\<lambda>p hs. hs @ [''progress''])) []
       = ScanAllWithPaths unmarshal_uuid example_fs ''/tmp/root'' 0
        (Some (\<lambda>h hs. hs @ [UUID (Ident h)])) (Some (\<lambda>p hs. hs @ [''progress''])) []
   \<and> (\<exists>p. scan_events unmarshal_uuid example_fs ''/tmp/root'' (- 3) =
         map Found [\<lparr> Ident = Identity_zero \<lparr> UUID := ''aaaa-1111'' \<rparr>, Path = ''/tmp/root/holon-a/HOLON.md'' \<rparr>,
      \<lparr> Ident = Identity_zero \<lparr> UUID := ''bbbb-2222'' \<rparr>, Path = ''/tmp/root/holon-b/HOLON.md'' \<rparr>]
         @ [Progress p])"
proof -
  have h: "(- 3 :: int) < 0" by simp
  have f: "fst (FindAllWithPaths unmarshal_uuid example_fs ''/tmp/root'') =
      [\<lparr> Ident = Identity_zero \<lparr> UUID := ''aaaa-1111'' \<rparr>, Path = ''/tmp/root/holon-a/HOLON.md'' \<rparr>,
      \<lparr> Ident = Identity_zero \<lparr> UUID := ''bbbb-2222'' \<rparr>, Path = ''/tmp/root/holon-b/HOLON.md'' \<rparr>]"
    by (simp add: FindAllWithPaths_eq example_located)
  show ?thesis
    using negative_interval_as_zero [OF h, of unmarshal_uuid example_fs "''/tmp/root''"
        "Some (\<lambda>h hs. hs @ [UUID (Ident h)])" "Some (\<lambda>p hs. hs @ [''progress''])" "[]"]
    unfolding f by blast
qed

lemma walk_scan_None:
  "fst (walkDirs (scanFn um n onFound onProgress) path ds st) = None"
  by (cases st) (simp add: walk_scan(2) split: prod.splits)



section \<open>Failure of the root\<close>




section \<open>Hidden directories\<close>




lemma example_FindAll:
  "FindAll unmarshal_uuid example_fs ''/tmp/root''
     = ([Identity_zero \<lparr> UUID := ''aaaa-1111'' \<rparr>, Identity_zero \<lparr> UUID := ''bbbb-2222'' \<rparr>], None)"
  by (simp add: FindAll_def FindAllWithPaths_eq example_located)

lemma example_FindByUUID_hidden:
  "FindByUUID unmarshal_uuid example_fs ''/tmp/root'' ''hidden-uuid''
     = (''/tmp/root/.secret/HOLON.md'', None)"
  by (simp add: FindByUUID_first_match first_match_def example_decoded matches_def
      Identity_zero_def)

lemma periodic_multiple:
  "0 < k \<Longrightarrow> periodic n k \<longleftrightarrow> (\<exists>j>0. k = j * n)"
proof
  assume k: "0 < k" and p: "periodic n k"
  then have n: "0 < n" and m: "k mod n = 0" by (simp_all add: periodic_def)
  from m have e: "k = (k div n) * n" using div_mult_mod_eq [of k n] by simp
  with k n have "0 < k div n"
    by (metis mult_zero_left not_less_iff_gr_or_eq pos_imp_zdiv_neg_iff)
  with e show "\<exists>j>0. k = j * n" by blast
next
  assume k: "0 < k" and "\<exists>j>0. k = j * n"
  then obtain j where j: "0 < j" "k = j * n" by blast
  with k have "0 < n" by (simp add: zero_less_mult_iff)
  with j k show "periodic n k" by (simp add: periodic_def)
qed

lemma periodic_clamp: "periodic (if n < 0 then 0 else n) k = periodic n k"
  by (simp add: periodic_def)

lemma map_filter_Cons:
  "List.map_filter g (x # xs) =
     (case g x of None \<Rightarrow> List.map_filter g xs | Some y \<Rightarrow> y # List.map_filter g xs)"
  by (simp add: List.map_filter_def split: option.splits)

lemma map_filter_append: "List.map_filter g (xs @ ys) = List.map_filter g xs @ List.map_filter g ys"
  by (simp add: List.map_filter_def)

lemma map_filter_take_mono:
  "k \<le> k' \<Longrightarrow> length (List.map_filter g (take k xs)) \<le> length (List.map_filter g (take k' xs))"
proof -
  assume "k \<le> k'"
  then have "take k' xs = take k xs @ take (k' - k) (drop k xs)"
    by (metis le_add_diff_inverse take_add)
  then show ?thesis by (simp add: map_filter_append)
qed

lemma map_filter_take_le:
  "length (List.map_filter g (take k xs)) \<le> length (List.map_filter g xs)"
proof -
  have "xs = take k xs @ drop k xs" by simp
  then have "List.map_filter g xs = List.map_filter g (take k xs) @ List.map_filter g (drop k xs)"
    by (metis map_filter_append)
  then show ?thesis by simp
qed

lemma upt_shift: "[1..<Suc (Suc m)] = 1 # map Suc [1..<Suc m]"
  by (simp add: upt_conv_Cons map_Suc_upt del: upt_Suc)

lemma file_events_counts:
  "file_events um n fl (s, f) = (evs, s', f') \<Longrightarrow>
     s' = s + int (length fl) \<and> f' = f + int (length (List.map_filter (decode um) fl))
     \<and> snapshots evs =
         map (\<lambda>k. \<lparr> ScannedFiles = s + int k,
                     HolonsFound = f + int (length (List.map_filter (decode um) (take (k - 1) fl))) \<rparr>)
           (filter (\<lambda>k. periodic n (s + int k)) [1..<Suc (length fl)])"
proof (induction fl arbitrary: s f evs s' f')
  case Nil
  then show ?case by (simp add: List.map_filter_def)
next
  case (Cons pd fl)
  let ?mf = "List.map_filter (decode um)"
  let ?d = "int (length (?mf [pd]))"
  let ?pev = "if periodic n (s + 1) then [Progress \<lparr> ScannedFiles = s + 1, HolonsFound = f \<rparr>] else []"
  obtain evs1 s1 f1 where r: "file_events um n fl (s + 1, f + ?d) = (evs1, s1, f1)"
    by (metis prod_cases3)
  from Cons.IH [OF r] have s1: "s1 = s + 1 + int (length fl)"
    and f1: "f1 = f + ?d + int (length (?mf fl))"
    and sn1: "snapshots evs1 =
         map (\<lambda>k. \<lparr> ScannedFiles = s + 1 + int k,
                     HolonsFound = f + ?d + int (length (?mf (take (k - 1) fl))) \<rparr>)
           (filter (\<lambda>k. periodic n (s + 1 + int k)) [1..<Suc (length fl)])"
    by simp_all
  have ev: "snapshots evs = snapshots ?pev @ snapshots evs1 \<and> s' = s1 \<and> f' = f1"
    using Cons.prems r
    by (cases "decode um pd")
       (auto simp: Let_def List.map_filter_def snapshots_append split: prod.splits)
  have len: "int (length (?mf (pd # fl))) = ?d + int (length (?mf fl))"
    by (simp add: map_filter_Cons List.map_filter_def split: option.splits)
  have tk: "\<And>k. 0 < k \<Longrightarrow> int (length (?mf (take k (pd # fl))))
      = ?d + int (length (?mf (take (k - 1) fl)))"
  proof -
    fix k :: nat assume "0 < k"
    then obtain j where "k = Suc j" by (cases k) auto
    then show "int (length (?mf (take k (pd # fl)))) = ?d + int (length (?mf (take (k - 1) fl)))"
      by (simp add: map_filter_Cons List.map_filter_def split: option.splits)
  qed
  let ?g = "\<lambda>k. \<lparr> ScannedFiles = s + int k,
                   HolonsFound = f + int (length (?mf (take (k - 1) (pd # fl)))) \<rparr>"
  let ?P = "\<lambda>k. periodic n (s + int k)"
  have a: "snapshots ?pev = map ?g (filter ?P [1])"
    by (simp add: List.map_filter_def)
  have b: "snapshots evs1 = map ?g (filter ?P (map Suc [1..<Suc (length fl)]))"
  proof -
    have "map ?g (filter ?P (map Suc [1..<Suc (length fl)]))
        = map (?g \<circ> Suc) (filter (?P \<circ> Suc) [1..<Suc (length fl)])"
      by (simp add: filter_map)
    also have "filter (?P \<circ> Suc) [1..<Suc (length fl)]
        = filter (\<lambda>k. periodic n (s + 1 + int k)) [1..<Suc (length fl)]"
      by (rule filter_cong [OF refl]) (simp add: algebra_simps)
    also have "map (?g \<circ> Suc) (filter (\<lambda>k. periodic n (s + 1 + int k)) [1..<Suc (length fl)])
        = map (\<lambda>k. \<lparr> ScannedFiles = s + 1 + int k,
                     HolonsFound = f + ?d + int (length (?mf (take (k - 1) fl))) \<rparr>)
            (filter (\<lambda>k. periodic n (s + 1 + int k)) [1..<Suc (length fl)])"
    proof (rule map_cong [OF refl])
      fix k assume "k \<in> set (filter (\<lambda>k. periodic n (s + 1 + int k)) [1..<Suc (length fl)])"
      then have "0 < k" by auto
      from tk [OF this] show "(?g \<circ> Suc) k = \<lparr> ScannedFiles = s + 1 + int k,
                     HolonsFound = f + ?d + int (length (?mf (take (k - 1) fl))) \<rparr>"
        by (simp add: algebra_simps)
    qed
    finally show ?thesis using sn1 by simp
  qed
  have up: "[1..<Suc (length (pd # fl))] = [1] @ map Suc [1..<Suc (length fl)]"
    using upt_shift [of "length fl"] by (simp del: upt_Suc)
  have "map ?g (filter ?P [1..<Suc (length (pd # fl))])
      = map ?g (filter ?P [1]) @ map ?g (filter ?P (map Suc [1..<Suc (length fl)]))"
    by (simp only: up filter_append map_append)
  also have "\<dots> = snapshots ?pev @ snapshots evs1" by (simp only: a b)
  also have "\<dots> = snapshots evs" using ev by simp
  finally have sn: "snapshots evs = map ?g (filter ?P [1..<Suc (length (pd # fl))])" by simp
  from ev s1 f1 len have "s' = s + int (length (pd # fl))"
    and "f' = f + int (length (?mf (pd # fl)))" by simp_all
  with sn show ?case by blast
qed


lemma scan_events_shape:
  "\<exists>evs. scan_events um fs root n =
       evs @ [Progress \<lparr> ScannedFiles = int (length (scan_files fs root)),
                          HolonsFound = int (length (List.map_filter (decode um) (scan_files fs root))) \<rparr>]
     \<and> founds evs = List.map_filter (decode um) (scan_files fs root)
     \<and> snapshots evs =
         map (\<lambda>k. \<lparr> ScannedFiles = int k,
                     HolonsFound = int (length (List.map_filter (decode um) (take (k - 1) (scan_files fs root)))) \<rparr>)
           (filter (\<lambda>k. \<exists>j>0. int k = j * n) [1..<Suc (length (scan_files fs root))])"
proof -
  let ?n = "if n < 0 then 0 else n"
  let ?fl = "scan_files fs root"
  obtain evs s f where fe: "file_events um ?n ?fl (0, 0) = (evs, s, f)" by (metis prod_cases3)
  from file_events_counts [OF fe] have s: "s = int (length ?fl)"
    and f: "f = int (length (List.map_filter (decode um) ?fl))"
    and sn: "snapshots evs =
         map (\<lambda>k. \<lparr> ScannedFiles = int k,
                     HolonsFound = int (length (List.map_filter (decode um) (take (k - 1) ?fl))) \<rparr>)
           (filter (\<lambda>k. periodic ?n (int k)) [1..<Suc (length ?fl)])"
    by simp_all
  have "filter (\<lambda>k. periodic ?n (int k)) [1..<Suc (length ?fl)]
      = filter (\<lambda>k. \<exists>j>0. int k = j * n) [1..<Suc (length ?fl)]"
  proof (rule filter_cong [OF refl])
    fix k assume "k \<in> set [1..<Suc (length ?fl)]"
    then have "0 < int k" by (auto simp del: upt_Suc)
    from periodic_multiple [OF this, of n] show "periodic ?n (int k) = (\<exists>j>0. int k = j * n)"
      by (simp only: periodic_clamp)
  qed
  with sn have sn': "snapshots evs =
         map (\<lambda>k. \<lparr> ScannedFiles = int k,
                     HolonsFound = int (length (List.map_filter (decode um) (take (k - 1) ?fl))) \<rparr>)
           (filter (\<lambda>k. \<exists>j>0. int k = j * n) [1..<Suc (length ?fl)])" by simp
  from file_events_founds [of um ?n ?fl "(0, 0)"] fe
  have fo: "founds evs = List.map_filter (decode um) ?fl" by simp
  from fe s f have "scan_events um fs root n =
       evs @ [Progress \<lparr> ScannedFiles = int (length ?fl),
                          HolonsFound = int (length (List.map_filter (decode um) ?fl)) \<rparr>]"
    by (simp add: scan_events_trace scan_trace_def)
  with fo sn' show ?thesis by blast
qed

section \<open>Progress reporting\<close>

text \<open>
  C6. With both callbacks logging, the progress snapshots of a scan with interval \<open>n\<close> are:
  one for every \<open>k\<close> from 1 to the number of files scanned that is a positive multiple of
  \<open>n\<close>, taken when the file counter reaches \<open>k\<close> and carrying the number of valid records
  among the files before the \<open>k\<close>-th; then one last snapshot, whatever \<open>n\<close> is, with the
  number of files scanned and the number of records found. Along the sequence both
  counts are non-decreasing, and the last snapshot's found count is the number of records
  emitted, which are the records \<open>FindAllWithPaths\<close> lists.
\<close>

theorem progress_reporting:
  "snapshots (scan_events um fs root n) =
     map (\<lambda>k. \<lparr> ScannedFiles = int k,
                 HolonsFound = int (length (List.map_filter (decode um) (take (k - 1) (scan_files fs root)))) \<rparr>)
       (filter (\<lambda>k. \<exists>j>0. int k = j * n) [1..<Suc (length (scan_files fs root))])
     @ [\<lparr> ScannedFiles = int (length (scan_files fs root)),
          HolonsFound = int (length (founds (scan_events um fs root n))) \<rparr>]
   \<and> sorted_wrt (\<lambda>p q. ScannedFiles p \<le> ScannedFiles q \<and> HolonsFound p \<le> HolonsFound q)
        (snapshots (scan_events um fs root n))
   \<and> HolonsFound (last (snapshots (scan_events um fs root n)))
        = int (length (founds (scan_events um fs root n)))
   \<and> founds (scan_events um fs root n) = fst (FindAllWithPaths um fs root)"
proof -
  let ?fl = "scan_files fs root"
  let ?mf = "List.map_filter (decode um)"
  let ?g = "\<lambda>k. \<lparr> ScannedFiles = int k, HolonsFound = int (length (?mf (take (k - 1) ?fl))) \<rparr>"
  let ?ks = "filter (\<lambda>k. \<exists>j>0. int k = j * n) [1..<Suc (length ?fl)]"
  let ?fin = "\<lparr> ScannedFiles = int (length ?fl), HolonsFound = int (length (?mf ?fl)) \<rparr>"
  let ?R = "\<lambda>p q. ScannedFiles p \<le> ScannedFiles q \<and> HolonsFound p \<le> HolonsFound q"
  from scan_events_shape [of um fs root n] obtain evs where
    ev: "scan_events um fs root n = evs @ [Progress ?fin]"
    and fo: "founds evs = ?mf ?fl" and sn: "snapshots evs = map ?g ?ks" by blast
  from ev fo have fo': "founds (scan_events um fs root n) = ?mf ?fl"
    by (simp add: founds_append)
  from ev sn have sn': "snapshots (scan_events um fs root n) = map ?g ?ks @ [?fin]"
    by (simp add: snapshots_append)
  have "sorted_wrt (\<le>) ?ks"
    by (rule sorted_wrt_filter) (simp del: upt_Suc)
  then have "sorted_wrt (\<lambda>a b. ?R (?g a) (?g b)) ?ks"
  proof (rule sorted_wrt_mono_rel [rotated])
    fix a b :: nat assume "a \<le> b"
    then have "a - 1 \<le> b - 1" by simp
    from map_filter_take_mono [OF this, of "decode um" ?fl] \<open>a \<le> b\<close>
    show "?R (?g a) (?g b)" by simp
  qed
  then have s1: "sorted_wrt ?R (map ?g ?ks)" by (simp add: sorted_wrt_map)
  have s2: "\<forall>p \<in> set (map ?g ?ks). ?R p ?fin"
  proof
    fix p assume "p \<in> set (map ?g ?ks)"
    then obtain k where k: "k \<in> set ?ks" and p: "p = ?g k" by auto
    from k have "k \<le> length ?fl" by auto
    with p map_filter_take_le [of "decode um" "k - 1" ?fl] show "?R p ?fin" by simp
  qed
  from s1 s2 have so: "sorted_wrt ?R (map ?g ?ks @ [?fin])"
    by (simp add: sorted_wrt_append)
  from sn' fo' so show ?thesis
    by (simp add: FindAllWithPaths_eq)
qed

lemma example_snapshots:
  "snapshots (scan_events unmarshal_uuid example_fs ''/tmp/root'' 1) =
     [\<lparr> ScannedFiles = 1, HolonsFound = 0 \<rparr>, \<lparr> ScannedFiles = 2, HolonsFound = 1 \<rparr>,
      \<lparr> ScannedFiles = 2, HolonsFound = 2 \<rparr>]"
  by (simp add: example_events)

theorem progress_reporting_witness:
  "sorted_wrt (\<lambda>p q. ScannedFiles p \<le> ScannedFiles q \<and> HolonsFound p \<le> HolonsFound q)
     [\<lparr> ScannedFiles = 1, HolonsFound = 0 \<rparr>, \<lparr> ScannedFiles = 2, HolonsFound = 1 \<rparr>,
      \<lparr> ScannedFiles = 2, HolonsFound = 2 \<rparr>]
   \<and> HolonsFound (last [\<lparr> ScannedFiles = 1, HolonsFound = 0 \<rparr>, \<lparr> ScannedFiles = 2, HolonsFound = 1 \<rparr>,
      \<lparr> ScannedFiles = 2, HolonsFound = 2 \<rparr>])
       = int (length (founds (scan_events unmarshal_uuid example_fs ''/tmp/root'' 1)))
   \<and> [\<lparr> ScannedFiles = 1, HolonsFound = 0 \<rparr>, \<lparr> ScannedFiles = 2, HolonsFound = 1 \<rparr>,
      \<lparr> ScannedFiles = 2, HolonsFound = 2 \<rparr>]
      = map (\<lambda>k. \<lparr> ScannedFiles = int k,
                 HolonsFound = int (length (List.map_filter (decode unmarshal_uuid)
                    (take (k - 1) (scan_files example_fs ''/tmp/root'')))) \<rparr>)
       (filter (\<lambda>k. \<exists>j>0. int k = j * 1) [1..<Suc (length (scan_files example_fs ''/tmp/root''))])
     @ [\<lparr> ScannedFiles = int (length (scan_files example_fs ''/tmp/root'')),
          HolonsFound = int (length (founds (scan_events unmarshal_uuid example_fs ''/tmp/root'' 1))) \<rparr>]"
  using progress_reporting [of unmarshal_uuid example_fs "''/tmp/root''" 1]
  unfolding example_snapshots by blast

lemma TrimLeft_None: "leading_space s = None \<Longrightarrow> TrimLeft s = s"
  by (simp add: TrimLeft.simps)

lemma TrimLeft_Some: "leading_space s = Some w \<Longrightarrow> TrimLeft s = TrimLeft (drop (length w) s)"
  by (subst TrimLeft.simps) simp

lemma TrimRight_None: "trailing_space s = None \<Longrightarrow> TrimRight s = s"
  by (simp add: TrimRight.simps)

lemma TrimRight_Some:
  "trailing_space s = Some w \<Longrightarrow> TrimRight s = TrimRight (take (length s - length w) s)"
  by (subst TrimRight.simps) simp

lemma leading_space_Nil: "leading_space [] = None"
  by (simp add: leading_space_def space_runes_def)

lemma trailing_space_Nil: "trailing_space [] = None"
  by (simp add: trailing_space_def space_runes_def)

lemma TrimSpace_Nil: "TrimSpace [] = []"
  by (simp add: TrimSpace_def TrimLeft_None TrimRight_None leading_space_Nil trailing_space_Nil)

lemma TrimSpace_space: "TrimSpace '' '' = []"
proof -
  have "leading_space '' '' = Some '' ''"
    by (simp add: leading_space_def space_runes_def)
  then have "TrimLeft '' '' = TrimLeft []" using TrimLeft_Some by fastforce
  then show ?thesis
    by (simp add: TrimSpace_def TrimLeft_None TrimRight_None leading_space_Nil trailing_space_Nil)
qed

lemma rows_clearProgressLine [simp]: "stdout (clearProgressLine inl st) = stdout st"
  by (simp add: clearProgressLine_def)

lemma rows_printProgress [simp]: "stdout (printProgress inl label n st) = stdout st"
  by (simp add: printProgress_def)

lemma rows_printEntry:
  "filter is_row (stdout (printEntry inl ident origin path st)) =
     filter is_row (stdout st)
       @ [Row (UUID ident) (TrimSpace (GivenName ident @ '' '' @ FamilyName ident)) origin
            (Clade ident) (Status ident) path]"
  by (simp add: printEntry_def Let_def)

lemma dedupe_first_append:
  "dedupe_first seen (xs @ ys) =
     dedupe_first seen xs @ dedupe_first (seen \<union> dedupe_key ` set xs) ys"
proof (induction xs arbitrary: seen)
  case Nil
  then show ?case by simp
next
  case (Cons x xs)
  have "insert (dedupe_key x) seen \<union> dedupe_key ` set xs = seen \<union> dedupe_key ` set (x # xs)"
    by auto
  moreover have "dedupe_key x \<in> seen \<Longrightarrow> seen \<union> dedupe_key ` set xs = seen \<union> dedupe_key ` set (x # xs)"
    by auto
  ultimately show ?case using Cons [of seen] Cons [of "insert (dedupe_key x) seen"]
    by (simp del: set_simps image_insert)
qed

lemma dedupe_first_keys:
  "dedupe_key ` set (dedupe_first seen xs) = dedupe_key ` set xs - seen"
  by (induction xs arbitrary: seen) auto

lemma dedupe_first_distinct: "distinct (map dedupe_key (dedupe_first seen xs))"
proof (induction xs arbitrary: seen)
  case Nil
  then show ?case by simp
next
  case (Cons x xs)
  show ?case
  proof (cases "dedupe_key x \<in> seen")
    case True
    with Cons show ?thesis by simp
  next
    case False
    have "dedupe_key x \<notin> dedupe_key ` set (dedupe_first (insert (dedupe_key x) seen) xs)"
      by (simp add: dedupe_first_keys)
    with False Cons [of "insert (dedupe_key x) seen"] show ?thesis by simp
  qed
qed

lemma fold_scanAndPrint:
  "fold (apply_event (Some (scanAndPrint_onFound Rel inl root origin))
                     (Some (scanAndPrint_onProgress inl label))) es (dedupe, lr, st)
     = (dedupe', lr', st') \<Longrightarrow>
   filter is_row (stdout st') =
     filter is_row (stdout st)
       @ map (row_of Rel root origin)
           (case dedupe of None \<Rightarrow> founds es | Some seen \<Rightarrow> dedupe_first seen (founds es))
   \<and> dedupe' = (case dedupe of None \<Rightarrow> None
                 | Some seen \<Rightarrow> Some (seen \<union> dedupe_key ` set (founds es)))"
proof (induction es arbitrary: dedupe lr st)
  case Nil
  then show ?case by (auto split: option.splits)
next
  case (Cons e es)
  show ?case
  proof (cases e)
    case (Progress p)
    have "\<exists>lr1 st1. scanAndPrint_onProgress inl label p (dedupe, lr, st) = (dedupe, lr1, st1)
        \<and> stdout st1 = stdout st"
      by (simp add: scanAndPrint_onProgress_def)
    then obtain lr1 st1 where s: "scanAndPrint_onProgress inl label p (dedupe, lr, st) = (dedupe, lr1, st1)"
      and o: "stdout st1 = stdout st" by blast
    from Cons.prems Progress s
    have "fold (apply_event (Some (scanAndPrint_onFound Rel inl root origin))
                     (Some (scanAndPrint_onProgress inl label))) es (dedupe, lr1, st1)
        = (dedupe', lr', st')" by simp
    from Cons.IH [OF this] o Progress show ?thesis by (cases dedupe) simp_all
  next
    case (Found h)
    let ?row = "row_of Rel root origin h"
    let ?pe = "printEntry inl (Ident h) origin (relHolonDir Rel root (Path h)) st"
    have pe: "filter is_row (stdout ?pe) = filter is_row (stdout st) @ [?row]"
      by (simp add: rows_printEntry row_of_def)
    show ?thesis
    proof (cases dedupe)
      case None
      then have s: "scanAndPrint_onFound Rel inl root origin h (dedupe, lr, st) = (None, lr, ?pe)"
        by (simp add: scanAndPrint_onFound_def Let_def)
      with Cons.prems Found
      have "fold (apply_event (Some (scanAndPrint_onFound Rel inl root origin))
                     (Some (scanAndPrint_onProgress inl label))) es (None, lr, ?pe)
        = (dedupe', lr', st')" by simp
      from Cons.IH [OF this] pe None Found show ?thesis by simp
    next
      case (Some seen)
      show ?thesis
      proof (cases "dedupe_key h \<in> seen")
        case True
        with Some have s: "scanAndPrint_onFound Rel inl root origin h (dedupe, lr, st) = (dedupe, lr, st)"
          by (simp add: scanAndPrint_onFound_def Let_def dedupe_key_def)
        with Cons.prems Found
        have "fold (apply_event (Some (scanAndPrint_onFound Rel inl root origin))
                     (Some (scanAndPrint_onProgress inl label))) es (dedupe, lr, st)
          = (dedupe', lr', st')" by simp
        from Cons.IH [OF this] Some True Found show ?thesis
          by (auto simp: insert_absorb)
      next
        case False
        with Some have s: "scanAndPrint_onFound Rel inl root origin h (dedupe, lr, st)
            = (Some (insert (dedupe_key h) seen), lr, ?pe)"
          by (simp add: scanAndPrint_onFound_def Let_def dedupe_key_def)
        with Cons.prems Found
        have "fold (apply_event (Some (scanAndPrint_onFound Rel inl root origin))
                     (Some (scanAndPrint_onProgress inl label))) es
                (Some (insert (dedupe_key h) seen), lr, ?pe)
          = (dedupe', lr', st')" by simp
        from Cons.IH [OF this] pe Some False Found show ?thesis by simp
      qed
    qed
  qed
qed

lemma scan_events_founds:
  "founds (scan_events um fs root n) = fst (FindAllWithPaths um fs root)"
  by (simp add: scan_events_trace scan_trace_founds FindAllWithPaths_eq)

lemma scanAndPrint_rows:
  assumes "scanAndPrint um fs Rel inl root scanRoot label origin dedupe st = (dedupe', st')"
  shows "filter is_row (stdout st') =
     filter is_row (stdout st)
       @ map (row_of Rel root origin)
           (case dedupe of None \<Rightarrow> fst (FindAllWithPaths um fs scanRoot)
            | Some seen \<Rightarrow> dedupe_first seen (fst (FindAllWithPaths um fs scanRoot)))
   \<and> dedupe' = (case dedupe of None \<Rightarrow> None
                 | Some seen \<Rightarrow> Some (seen \<union> dedupe_key ` set (fst (FindAllWithPaths um fs scanRoot))))"
proof -
  let ?es = "scan_events um fs scanRoot 500"
  obtain lr' where "fold (apply_event (Some (scanAndPrint_onFound Rel inl root origin))
                     (Some (scanAndPrint_onProgress inl label))) ?es (dedupe, 0, st)
     = (dedupe', lr', st')"
    using assms
    by (auto simp: scanAndPrint_def ScanAllWithPaths_events split: prod.splits)
  from fold_scanAndPrint [OF this] show ?thesis
    by (simp only: scan_events_founds)
qed


lemma holonCacheDir_nonempty: "holonCacheDir (Inr h) \<noteq> []"
  by (cases "h = []") (simp_all add: holonCacheDir_def JoinN_def Clean_nonempty)

section \<open>Aggregated listing\<close>

text \<open>
  C7. The rows that \<open>RunList\<close> prints are: the records found under \<open>holons\<close> in the
  requested root followed by those found under the root itself, de-duplicated together
  by identifier (by file path when the identifier is empty) with the first occurrence
  kept, each labelled "local"; then, when the home directory is known, every record
  found under the cache, with no de-duplication, each labelled "cached". Among the local
  rows each key occurs exactly once.
\<close>

theorem RunList_aggregation:
  "root = Clean (if root0 = [] then ''.'' else root0) \<Longrightarrow>
   found_local = fst (FindAllWithPaths um fs (Join root ''holons'')) @ fst (FindAllWithPaths um fs root) \<Longrightarrow>
     filter is_row (stdout (snd (RunList um fs Rel home inl root0))) =
       map (row_of Rel root ''local'') (dedupe_first {} found_local)
       @ (case home of
            Inl err \<Rightarrow> []
          | Inr h \<Rightarrow> map (row_of Rel root ''cached'')
                       (fst (FindAllWithPaths um fs (JoinN [h, ''.holon'', ''cache'']))))
     \<and> distinct (map dedupe_key (dedupe_first {} found_local))
     \<and> dedupe_key ` set (dedupe_first {} found_local) = dedupe_key ` set found_local
     \<and> fst (RunList um fs Rel home inl root0) = None"
proof -
  assume root: "root = Clean (if root0 = [] then ''.'' else root0)"
    and fl: "found_local = fst (FindAllWithPaths um fs (Join root ''holons'')) @ fst (FindAllWithPaths um fs root)"
  let ?A = "fst (FindAllWithPaths um fs (Join root ''holons''))"
  let ?B = "fst (FindAllWithPaths um fs root)"
  let ?st0 = "\<lparr> printedHeader = False, printedEntries = 0, progressVisible = False,
                  stdout = [], stderr = [] \<rparr>"
  obtain seen1 st1 where s1:
    "scanAndPrint um fs Rel inl root (Join root ''holons'') ''local'' ''local'' (Some {}) ?st0 = (seen1, st1)"
    by (metis prod.exhaust)
  obtain seen2 st2 where s2:
    "scanAndPrint um fs Rel inl root root ''root'' ''local'' seen1 st1 = (seen2, st2)"
    by (metis prod.exhaust)
  from scanAndPrint_rows [OF s1] have r1: "filter is_row (stdout st1) = map (row_of Rel root ''local'') (dedupe_first {} ?A)"
    and k1: "seen1 = Some (dedupe_key ` set ?A)" by simp_all
  from scanAndPrint_rows [OF s2] k1 have r2: "filter is_row (stdout st2) =
      filter is_row (stdout st1) @ map (row_of Rel root ''local'') (dedupe_first (dedupe_key ` set ?A) ?B)"
    by simp
  have loc: "filter is_row (stdout st2) = map (row_of Rel root ''local'') (dedupe_first {} found_local)"
    using r1 r2 fl dedupe_first_append [of "{}" ?A ?B] by simp
  define st3 where "st3 = (if holonCacheDir home \<noteq> []
                 then snd (scanAndPrint um fs Rel inl root (holonCacheDir home)
                             ''cache'' ''cached'' None st2)
                 else st2)"
  have r3: "filter is_row (stdout st3) = filter is_row (stdout st2)
       @ (case home of
            Inl err \<Rightarrow> []
          | Inr h \<Rightarrow> map (row_of Rel root ''cached'')
                       (fst (FindAllWithPaths um fs (JoinN [h, ''.holon'', ''cache'']))))"
  proof (cases home)
    case (Inl err)
    then show ?thesis by (simp add: st3_def holonCacheDir_def)
  next
    case (Inr h)
    obtain d3 s3 where s3: "scanAndPrint um fs Rel inl root (holonCacheDir home)
                             ''cache'' ''cached'' None st2 = (d3, s3)"
      by (metis prod.exhaust)
    from scanAndPrint_rows [OF s3] Inr s3 holonCacheDir_nonempty [of h] show ?thesis
      by (simp add: st3_def holonCacheDir_def)
  qed
  have run: "RunList um fs Rel home inl root0 =
      (None, (if printedEntries (clearProgressLine inl st3) = 0
              then (clearProgressLine inl st3) \<lparr> stdout := stdout (clearProgressLine inl st3) @ [NoHolonsLine] \<rparr>
              else clearProgressLine inl st3))"
    using s1 s2 root by (simp add: RunList_def Let_def st3_def)
  have "filter is_row (stdout (snd (RunList um fs Rel home inl root0))) = filter is_row (stdout st3)"
    by (simp add: run)
  with r3 loc have a: "filter is_row (stdout (snd (RunList um fs Rel home inl root0))) =
       map (row_of Rel root ''local'') (dedupe_first {} found_local)
       @ (case home of
            Inl err \<Rightarrow> []
          | Inr h \<Rightarrow> map (row_of Rel root ''cached'')
                       (fst (FindAllWithPaths um fs (JoinN [h, ''.holon'', ''cache'']))))"
    by simp
  have b: "distinct (map dedupe_key (dedupe_first {} found_local))"
    by (rule dedupe_first_distinct)
  have c: "dedupe_key ` set (dedupe_first {} found_local) = dedupe_key ` set found_local"
    by (simp add: dedupe_first_keys)
  have d: "fst (RunList um fs Rel home inl root0) = None" by (simp add: run)
  from a b c d show ?thesis by blast
qed


lemma listing_parse:
  "ParseFrontmatter unmarshal_uuid (example_content ''root-uuid'')
     = (Identity_zero \<lparr> UUID := ''root-uuid'' \<rparr>, [NL], None)"
  "ParseFrontmatter unmarshal_uuid (example_content ''x-uuid'')
     = (Identity_zero \<lparr> UUID := ''x-uuid'' \<rparr>, [NL], None)"
  by (simp_all add: ParseFrontmatter_def example_content_def frontmatter_rest_def closing_def
      unmarshal_uuid_def Let_def)

lemma listing_joins:
  "Clean ''/w'' = ''/w''"
  "Join ''/w'' ''holons'' = ''/w/holons''"
  "Join ''/w'' ''HOLON.md'' = ''/w/HOLON.md''"
  "Join ''/w/holons'' ''x'' = ''/w/holons/x''"
  "Join ''/w/holons/x'' ''HOLON.md'' = ''/w/holons/x/HOLON.md''"
  "JoinN [''/home/u'', ''.holon'', ''cache''] = ''/home/u/.holon/cache''"
  "Join ''/home/u/.holon/cache'' ''x'' = ''/home/u/.holon/cache/x''"
  "Join ''/home/u/.holon/cache/x'' ''HOLON.md'' = ''/home/u/.holon/cache/x/HOLON.md''"
  by (simp_all add: Join_def JoinN_def Clean_def)

lemma listing_found:
  "fst (FindAllWithPaths unmarshal_uuid listing_fs ''/w/holons'') =
     [\<lparr> Ident = Identity_zero \<lparr> UUID := ''x-uuid'' \<rparr>, Path = ''/w/holons/x/HOLON.md'' \<rparr>]"
  "fst (FindAllWithPaths unmarshal_uuid listing_fs ''/w'') =
     [\<lparr> Ident = Identity_zero \<lparr> UUID := ''root-uuid'' \<rparr>, Path = ''/w/HOLON.md'' \<rparr>,
      \<lparr> Ident = Identity_zero \<lparr> UUID := ''x-uuid'' \<rparr>, Path = ''/w/holons/x/HOLON.md'' \<rparr>]"
  "fst (FindAllWithPaths unmarshal_uuid listing_fs ''/home/u/.holon/cache'') =
     [\<lparr> Ident = Identity_zero \<lparr> UUID := ''x-uuid'' \<rparr>, Path = ''/home/u/.holon/cache/x/HOLON.md'' \<rparr>]"
  by (simp_all add: FindAllWithPaths_eq scan_files_def Lstat_def listing_fs_def listing_joins
      hidden_def List.map_filter_def decode_def listing_parse)

lemma listing_dirs:
  "relHolonDir (\<lambda>b t. Inl (Errorf ''Rel'')) ''/w'' ''/w/holons/x/HOLON.md'' = ''/w/holons/x''"
  "relHolonDir (\<lambda>b t. Inl (Errorf ''Rel'')) ''/w'' ''/w/HOLON.md'' = ''/w''"
  "relHolonDir (\<lambda>b t. Inl (Errorf ''Rel'')) ''/w'' ''/home/u/.holon/cache/x/HOLON.md''
     = ''/home/u/.holon/cache/x''"
  by (simp_all add: relHolonDir_def filepath_Dir_def Clean_def)

theorem RunList_aggregation_witness:
  "filter is_row (stdout (snd (RunList unmarshal_uuid listing_fs (\<lambda>b t. Inl (Errorf ''Rel''))
        (Inr ''/home/u'') False ''/w''))) =
     [Row ''x-uuid'' [] ''local'' [] [] ''/w/holons/x'',
      Row ''root-uuid'' [] ''local'' [] [] ''/w'',
      Row ''x-uuid'' [] ''cached'' [] [] ''/home/u/.holon/cache/x'']"
proof -
  have r: "''/w'' = Clean (if ''/w'' = [] then ''.'' else ''/w'')" by (simp add: listing_joins)
  have f: "fst (FindAllWithPaths unmarshal_uuid listing_fs ''/w/holons'')
        @ fst (FindAllWithPaths unmarshal_uuid listing_fs ''/w'')
      = fst (FindAllWithPaths unmarshal_uuid listing_fs (Join ''/w'' ''holons''))
        @ fst (FindAllWithPaths unmarshal_uuid listing_fs ''/w'')"
    by (simp add: listing_joins)
  from conjunct1 [OF RunList_aggregation [OF r f, of "\<lambda>b t. Inl (Errorf ''Rel'')" "Inr ''/home/u''" False]]
  show ?thesis
    by (simp add: listing_joins listing_found row_of_def dedupe_key_def listing_dirs
        Identity_zero_def TrimSpace_space)
qed

lemma space_runes_nonempty: "w \<in> set space_runes \<Longrightarrow> w \<noteq> []"
  by (auto simp: space_runes_def)

lemma space_runes_length:
  "w \<in> set space_runes \<Longrightarrow>
     length w = (if hd w = CHR 0xC2 then 2
                 else if hd w = CHR 0xE1 \<or> hd w = CHR 0xE2 \<or> hd w = CHR 0xE3 then 3 else 1)"
  by (auto simp: space_runes_def)

lemma space_runes_prefix_free:
  assumes "w \<in> set space_runes" and "w' \<in> set space_runes" and "prefix w w'"
  shows "w = w'"
proof -
  from assms(1,2) have ne: "w \<noteq> []" "w' \<noteq> []" by (simp_all add: space_runes_nonempty)
  with assms(3) have "hd w = hd w'" by (cases w; cases w') auto
  with space_runes_length [OF assms(1)] space_runes_length [OF assms(2)]
  have "length w = length w'" by simp
  with assms(3) show ?thesis by (auto simp: prefix_def)
qed


lemma leading_space_rune:
  assumes "w \<in> set space_runes"
  shows "leading_space (w @ r) = Some w"
proof (cases "leading_space (w @ r)")
  case None
  with assms show ?thesis by (auto simp: leading_space_def find_None_iff)
next
  case (Some w')
  then have "w' \<in> set space_runes" and "prefix w' (w @ r)"
    by (auto simp: leading_space_def find_Some_iff)
  moreover have "prefix w (w @ r)" by simp
  ultimately have "prefix w w' \<or> prefix w' w" using prefix_same_cases by blast
  with assms \<open>w' \<in> set space_runes\<close> have "w' = w"
    using space_runes_prefix_free by blast
  with Some show ?thesis by simp
qed

lemma TrimLeft_runes:
  "set ws \<subseteq> set space_runes \<Longrightarrow> TrimLeft (concat ws @ t) = TrimLeft t"
proof (induction ws)
  case Nil
  then show ?case by simp
next
  case (Cons w ws)
  then have "leading_space (w @ concat ws @ t) = Some w" by (simp add: leading_space_rune)
  from TrimLeft_Some [OF this] Cons show ?case by simp
qed

lemma TrimLeft_shape: "\<exists>ws. set ws \<subseteq> set space_runes \<and> s = concat ws @ TrimLeft s"
proof (induction s rule: TrimLeft.induct)
  case (1 s)
  show ?case
  proof (cases "leading_space s")
    case None
    then have "TrimLeft s = s" by (rule TrimLeft_None)
    then have "set [] \<subseteq> set space_runes \<and> s = concat [] @ TrimLeft s" by simp
    then show ?thesis by blast
  next
    case (Some w)
    then have w: "w \<in> set space_runes" and p: "prefix w s"
      by (auto simp: leading_space_def find_Some_iff)
    from 1 [OF Some] obtain ws where ws: "set ws \<subseteq> set space_runes"
      and d: "drop (length w) s = concat ws @ TrimLeft (drop (length w) s)" by blast
    from p have "s = w @ drop (length w) s" by (auto simp: prefix_def)
    with d TrimLeft_Some [OF Some] have "s = concat (w # ws) @ TrimLeft s" by simp
    moreover from w ws have "set (w # ws) \<subseteq> set space_runes" by simp
    ultimately show ?thesis by blast
  qed
qed

lemma TrimRight_shape: "\<exists>ws. set ws \<subseteq> set space_runes \<and> s = TrimRight s @ concat ws"
proof (induction s rule: TrimRight.induct)
  case (1 s)
  show ?case
  proof (cases "trailing_space s")
    case None
    then have "TrimRight s = s" by (rule TrimRight_None)
    then have "set [] \<subseteq> set space_runes \<and> s = TrimRight s @ concat []" by simp
    then show ?thesis by blast
  next
    case (Some w)
    then have w: "w \<in> set space_runes" and p: "suffix w s"
      by (auto simp: trailing_space_def find_Some_iff)
    let ?t = "take (length s - length w) s"
    from 1 [OF Some] obtain ws where ws: "set ws \<subseteq> set space_runes"
      and d: "?t = TrimRight ?t @ concat ws" by blast
    from p have "s = ?t @ w" by (auto simp: suffix_def)
    with d TrimRight_Some [OF Some] have "s = TrimRight s @ concat (ws @ [w])"
      by (metis append.assoc append_Nil2 concat.simps(1) concat.simps(2) concat_append)
    moreover from w ws have "set (ws @ [w]) \<subseteq> set space_runes" by simp
    ultimately show ?thesis by blast
  qed
qed

lemma TrimSpace_empty_iff: "TrimSpace s = [] \<longleftrightarrow> blank s"
proof
  assume e: "TrimSpace s = []"
  from TrimLeft_shape [of s] obtain ws1 where w1: "set ws1 \<subseteq> set space_runes"
    and s1: "s = concat ws1 @ TrimLeft s" by blast
  from TrimRight_shape [of "TrimLeft s"] obtain ws2 where w2: "set ws2 \<subseteq> set space_runes"
    and s2: "TrimLeft s = TrimRight (TrimLeft s) @ concat ws2" by blast
  from e s2 have "TrimLeft s = concat ws2" by (simp add: TrimSpace_def)
  with s1 have "s = concat (ws1 @ ws2)" by simp
  moreover from w1 w2 have "set (ws1 @ ws2) \<subseteq> set space_runes" by simp
  ultimately show "blank s" unfolding blank_def by blast
next
  assume "blank s"
  then obtain ws where "set ws \<subseteq> set space_runes" and "s = concat ws"
    unfolding blank_def by blast
  with TrimLeft_runes [of ws "[]"] have "TrimLeft s = TrimLeft []" by simp
  then show "TrimSpace s = []"
    by (simp add: TrimSpace_def TrimLeft_None TrimRight_None leading_space_Nil trailing_space_Nil)
qed

end
